theory Spec2Isabelle
  imports Main "HOL-Library.Sublist"
begin

section \<open>The Snowflake adapter of dbt: a shallow embedding of impl.py\<close>

text \<open>
  The theory follows \<^verbatim>\<open>src/dbt/adapters/snowflake/impl.py\<close>. A leading underscore of a
  Python name is dropped (\<^verbatim>\<open>_make_match_kwargs\<close> is \<open>make_match_kwargs\<close>), since an
  Isabelle name starts with a letter.
\<close>

subsection \<open>Python strings\<close>

text \<open>
  A Python \<^verbatim>\<open>str\<close> is a \<open>string\<close>. The built-in methods \<^verbatim>\<open>str.upper\<close> and
  \<^verbatim>\<open>str.lower\<close> are modelled on ASCII text: the letters \<^verbatim>\<open>a\<close> to \<^verbatim>\<open>z\<close>
  (codes 97 to 122) and \<^verbatim>\<open>A\<close> to \<^verbatim>\<open>Z\<close> (codes 65 to 90) are mapped onto each other,
  every other character is kept. On ASCII text this is what Python computes.
\<close>

definition upper_char :: "char \<Rightarrow> char" where
  "upper_char c =
     (let n = (of_char c :: nat)
      in if 97 \<le> n \<and> n \<le> 122 then char_of (n - 32) else c)"

definition lower_char :: "char \<Rightarrow> char" where
  "lower_char c =
     (let n = (of_char c :: nat)
      in if 65 \<le> n \<and> n \<le> 90 then char_of (n + 32) else c)"

definition upper :: "string \<Rightarrow> string" where
  "upper s = map upper_char s"

definition lower :: "string \<Rightarrow> string" where
  "lower s = map lower_char s"

text \<open>\<^verbatim>\<open>needle in haystack\<close> on strings: the needle occurs as a contiguous piece.\<close>

fun str_contains :: "string \<Rightarrow> string \<Rightarrow> bool" where
  "str_contains needle [] = (needle = [])"
| "str_contains needle (c # cs) = (prefix needle (c # cs) \<or> str_contains needle cs)"

subsection \<open>Data the adapter handles\<close>

text \<open>
  \<^verbatim>\<open>self.config.quoting\<close> and the \<^verbatim>\<open>quote_policy\<close> of a relation are dictionaries
  with the keys \<^verbatim>\<open>"database"\<close>, \<^verbatim>\<open>"schema"\<close> and \<^verbatim>\<open>"identifier"\<close>, each bound to a
  boolean.
\<close>

record quoting =
  q_database :: bool
  q_schema :: bool
  q_identifier :: bool

text \<open>
  Modelled from the spec: the relation class \<^verbatim>\<open>SnowflakeRelation\<close> and its relation
  types are not part of the sources at hand. The spec's RelationDescriptor has optional
  \<open>database\<close>, \<open>schema\<close> and \<open>identifier\<close>, a \<open>kind\<close> among Table, View, CTE,
  MaterializedView, External and Unknown, and a quote policy per part.
\<close>

datatype relation_type = Table | View | CTE | MaterializedView | External | Unknown

record relation =
  rel_database :: "string option"
  rel_schema :: "string option"
  rel_identifier :: "string option"
  rel_quote_policy :: quoting
  rel_type :: relation_type

text \<open>\<^verbatim>\<open>self.Relation.create(database=..., schema=..., identifier=..., quote_policy=..., type=...)\<close>\<close>

definition Relation_create ::
  "string \<Rightarrow> string \<Rightarrow> string \<Rightarrow> quoting \<Rightarrow> relation_type \<Rightarrow> relation"
where
  "Relation_create database schema identifier quote_policy type =
     \<lparr>rel_database = Some database, rel_schema = Some schema,
      rel_identifier = Some identifier, rel_quote_policy = quote_policy, rel_type = type\<rparr>"

text \<open>
  A row of the tables that the metadata macros return (\<^verbatim>\<open>show terse schemas\<close>,
  \<^verbatim>\<open>show terse objects\<close>): the four text columns that the adapter reads by name.
\<close>

record row =
  col_database_name :: string
  col_schema_name :: string
  col_name :: string
  col_kind :: string

text \<open>
  The exceptions of \<^verbatim>\<open>dbt.exceptions\<close> that the adapter catches or raises, with
  \<^verbatim>\<open>str(exc)\<close> as the argument; \<open>OtherException\<close> stands for every exception that
  is neither.
\<close>

datatype exn =
    DatabaseException string
  | RuntimeException string
  | OtherException string

text \<open>The keyword arguments the adapter passes to a macro.\<close>

datatype kwargs =
    Kw_database string
  | Kw_schema_relation relation

text \<open>
  What the adapter does to its collaborators, in the order it does it: statements and
  macros sent to the warehouse, calls on \<^verbatim>\<open>self.cache\<close>, and entering and leaving
  \<^verbatim>\<open>with self.cache.lock\<close>.
\<close>

datatype event =
    Execute string bool
  | Execute_Macro string kwargs
  | Lock_Acquire
  | Lock_Release
  | Cache_Clear
  | Cache_Add relation
  | Cache_Update_Schemas "(string \<times> string) set"

text \<open>
  A method that talks to its collaborators yields the events it caused and either the
  exception it raised (\<open>Inl\<close>) or the value it returned (\<open>Inr\<close>).
\<close>

type_synonym 'a comp = "event list \<times> (exn + 'a)"

text \<open>
  The adapter object \<^verbatim>\<open>self\<close>: its configuration and the collaborators it calls.
  \<open>execute sql fetch\<close> answers with the table of a statement (a cell is a string or
  \<^verbatim>\<open>None\<close>) or raises; \<open>execute_macro name kwargs\<close> answers with the rows of a macro
  or raises; \<open>get_relation_type s\<close> is \<^verbatim>\<open>self.Relation.get_relation_type(s)\<close>, with
  \<open>None\<close> for its \<^verbatim>\<open>ValueError\<close>.
\<close>

record adapter =
  config_quoting :: quoting
  credentials_warehouse :: "string option"
  execute :: "string \<Rightarrow> bool \<Rightarrow> exn + string option list list"
  execute_macro :: "string \<Rightarrow> kwargs \<Rightarrow> exn + row list"
  get_relation_type :: "string \<Rightarrow> relation_type option"

text \<open>
  The macro names. The first two are imported from \<^verbatim>\<open>dbt.adapters.sql.impl\<close>; no
  result below depends on their values.
\<close>

definition LIST_SCHEMAS_MACRO_NAME :: string where
  "LIST_SCHEMAS_MACRO_NAME = ''list_schemas''"

definition LIST_RELATIONS_MACRO_NAME :: string where
  "LIST_RELATIONS_MACRO_NAME = ''list_relations_without_caching''"

definition LIST_DATABASE_OBJECTS_MACRO_NAME :: string where
  "LIST_DATABASE_OBJECTS_MACRO_NAME = ''snowflake__list_database_objects''"

subsection \<open>The identifier normalizer\<close>

text \<open>
  \<^verbatim>\<open>dbt.utils.filter_null_values\<close> is
  \<^verbatim>\<open>{k: v for k, v in input.items() if v is not None}\<close>. A dictionary is an association
  list in insertion order; \<open>None\<close> is Python's \<^verbatim>\<open>None\<close>.
\<close>

definition filter_null_values :: "('k \<times> 'v option) list \<Rightarrow> ('k \<times> 'v) list" where
  "filter_null_values input =
     concat (map (\<lambda>(k, v). case v of None \<Rightarrow> [] | Some x \<Rightarrow> [(k, x)]) input)"

definition make_match_kwargs ::
  "adapter \<Rightarrow> string option \<Rightarrow> string option \<Rightarrow> string option \<Rightarrow> (string \<times> string) list"
where
  "make_match_kwargs self database schema identifier =
     (let quoting = config_quoting self;
          identifier =
            (if identifier \<noteq> None \<and> q_identifier quoting = False
             then map_option upper identifier else identifier);
          schema =
            (if schema \<noteq> None \<and> q_schema quoting = False
             then map_option upper schema else schema);
          database =
            (if database \<noteq> None \<and> q_database quoting = False
             then map_option upper database else database)
      in filter_null_values
           [(''identifier'', identifier), (''schema'', schema), (''database'', database)])"

subsection \<open>The warehouse hooks\<close>

text \<open>\<^verbatim>\<open>str(x)\<close> of a cell.\<close>

definition str :: "string option \<Rightarrow> string" where
  "str x = (case x of None \<Rightarrow> ''None'' | Some s \<Rightarrow> s)"

text \<open>
  \<open>get_warehouse\<close>: the two tests \<^verbatim>\<open>len(table) == 0\<close> and
  \<^verbatim>\<open>len(table[0]) == 0\<close> are the two empty cases.
\<close>

definition get_warehouse :: "adapter \<Rightarrow> string comp" where
  "get_warehouse self =
     (let sql = ''select current_warehouse() as warehouse''
      in ([Execute sql True],
          case execute self sql True of
            Inl exc \<Rightarrow> Inl exc
          | Inr [] \<Rightarrow> Inl (RuntimeException ''Could not get current warehouse: no results'')
          | Inr ([] # _) \<Rightarrow> Inl (RuntimeException ''Could not get current warehouse: no results'')
          | Inr ((cell # _) # _) \<Rightarrow> Inr (str cell)))"

definition use_warehouse :: "adapter \<Rightarrow> string \<Rightarrow> unit comp" where
  "use_warehouse self warehouse =
     (let sql = ''use warehouse '' @ warehouse
      in ([Execute sql False],
          case execute self sql False of
            Inl exc \<Rightarrow> Inl exc
          | Inr _ \<Rightarrow> Inr ()))"

text \<open>
  \<open>config\<close> is the mapping of one model's configuration; the value bound to
  \<^verbatim>\<open>"snowflake_warehouse"\<close> is a string or \<^verbatim>\<open>None\<close>.
  \<^verbatim>\<open>config.get(key, default)\<close> is the default only where the key is not bound.
\<close>

definition pre_model_hook :: "adapter \<Rightarrow> (string \<rightharpoonup> string option) \<Rightarrow> string option comp" where
  "pre_model_hook self config =
     (let default_warehouse = credentials_warehouse self;
          warehouse = (case config ''snowflake_warehouse'' of
                         None \<Rightarrow> default_warehouse
                       | Some v \<Rightarrow> v)
      in case warehouse of
           None \<Rightarrow> ([], Inr None)
         | Some w \<Rightarrow>
             if warehouse = default_warehouse then ([], Inr None)
             else (case get_warehouse self of
                     (ev1, Inl exc) \<Rightarrow> (ev1, Inl exc)
                   | (ev1, Inr previous) \<Rightarrow>
                       (case use_warehouse self w of
                          (ev2, Inl exc) \<Rightarrow> (ev1 @ ev2, Inl exc)
                        | (ev2, Inr _) \<Rightarrow> (ev1 @ ev2, Inr (Some previous)))))"

definition post_model_hook ::
  "adapter \<Rightarrow> (string \<rightharpoonup> string option) \<Rightarrow> string option \<Rightarrow> unit comp"
where
  "post_model_hook self config context =
     (case context of
        None \<Rightarrow> ([], Inr ())
      | Some warehouse \<Rightarrow> use_warehouse self warehouse)"

subsection \<open>Listing schemas, columns and relations\<close>

definition list_schemas :: "adapter \<Rightarrow> string \<Rightarrow> string list comp" where
  \<open>list_schemas self database =
     ([Execute_Macro LIST_SCHEMAS_MACRO_NAME (Kw_database database)],
      case execute_macro self LIST_SCHEMAS_MACRO_NAME (Kw_database database) of
        Inl (DatabaseException exc) \<Rightarrow>
          Inl (RuntimeException
                (''Database error while listing schemas in database '' @
                 [CHR 0x22] @ database @ [CHR 0x22, CHR 0x0A] @ exc))
      | Inl other \<Rightarrow> Inl other
      | Inr results \<Rightarrow> Inr (map col_name results))\<close>

text \<open>
  \<open>get_columns_in_relation\<close>: \<open>super_get_columns_in_relation\<close> is the method of the
  base class, \<^verbatim>\<open>super().get_columns_in_relation\<close>.
\<close>

definition get_columns_in_relation ::
  "(relation \<Rightarrow> exn + 'col list) \<Rightarrow> relation \<Rightarrow> exn + 'col list"
where
  "get_columns_in_relation super_get_columns_in_relation relation =
     (case super_get_columns_in_relation relation of
        Inl (DatabaseException exc) \<Rightarrow>
          if str_contains ''does not exist or not authorized'' exc then Inr []
          else Inl (DatabaseException exc)
      | Inl other \<Rightarrow> Inl other
      | Inr columns \<Rightarrow> Inr columns)"

definition list_relations_without_caching :: "adapter \<Rightarrow> relation \<Rightarrow> relation list comp" where
  "list_relations_without_caching self schema_relation =
     (let kwargs = Kw_schema_relation schema_relation
      in ([Execute_Macro LIST_RELATIONS_MACRO_NAME kwargs],
          case execute_macro self LIST_RELATIONS_MACRO_NAME kwargs of
            Inl (DatabaseException exc) \<Rightarrow>
              if str_contains ''Object does not exist'' exc then Inr []
              else Inl (DatabaseException exc)
          | Inl other \<Rightarrow> Inl other
          | Inr results \<Rightarrow>
              (let quote_policy = \<lparr>q_database = True, q_schema = True, q_identifier = True\<rparr>
               in Inr (map (\<lambda>r.
                     let (d, s, i, t) =
                           (col_database_name r, col_schema_name r, col_name r, col_kind r);
                         t' = (case get_relation_type self (lower t) of
                                 Some known \<Rightarrow> known
                               | None \<Rightarrow> External)
                     in Relation_create d s i quote_policy t') results))))"

subsection \<open>Filling the relation cache\<close>

definition database_object_to_relation :: "adapter \<Rightarrow> row \<Rightarrow> relation" where
  "database_object_to_relation self database_object =
     (let quote_policy = \<lparr>q_database = True, q_schema = True, q_identifier = True\<rparr>;
          t = (case get_relation_type self (lower (col_kind database_object)) of
                 Some known \<Rightarrow> known
               | None \<Rightarrow> External)
      in Relation_create (col_database_name database_object) (col_schema_name database_object)
           (col_name database_object) quote_policy t)"

text \<open>
  The inner loop of \<open>relations_cache_for_schemas\<close>, over the objects of one database:
  the calls of \<^verbatim>\<open>self.cache.add\<close>.
\<close>

fun add_database_objects :: "adapter \<Rightarrow> string set \<Rightarrow> row list \<Rightarrow> event list" where
  "add_database_objects self cache_schema_names [] = []"
| "add_database_objects self cache_schema_names (database_object # results) =
     (if lower (col_schema_name database_object) \<in> cache_schema_names
      then Cache_Add (database_object_to_relation self database_object)
             # add_database_objects self cache_schema_names results
      else add_database_objects self cache_schema_names results)"

text \<open>The outer loop, over the databases; a failed listing ends it.\<close>

fun list_database_objects :: "adapter \<Rightarrow> string set \<Rightarrow> string list \<Rightarrow> unit comp" where
  "list_database_objects self cache_schema_names [] = ([], Inr ())"
| "list_database_objects self cache_schema_names (database # schema_databases) =
     (let call = Execute_Macro LIST_DATABASE_OBJECTS_MACRO_NAME (Kw_database database)
      in case execute_macro self LIST_DATABASE_OBJECTS_MACRO_NAME (Kw_database database) of
           Inl (DatabaseException exc) \<Rightarrow>
             ([call],
              Inl (RuntimeException
                    (''Database error while listing objects in database '' @
                     [CHR 0x22] @ database @ [CHR 0x22, CHR 0x0A] @ exc)))
         | Inl other \<Rightarrow> ([call], Inl other)
         | Inr results \<Rightarrow>
             (case list_database_objects self cache_schema_names schema_databases of
                (events, outcome) \<Rightarrow>
                  (call # add_database_objects self cache_schema_names results @ events,
                   outcome)))"

text \<open>
  \<open>cache_schemas\<close> stands for \<^verbatim>\<open>self._get_cache_schemas(manifest)\<close>: the relations
  without identifier that the manifest needs, each a pair of a database and a schema,
  both strings (the source types the two sets as \<^verbatim>\<open>Set[str]\<close>). Python leaves the order
  in which a set is walked open; the model walks \<open>schema_databases\<close> in the order of
  \<open>remdups\<close>.
\<close>

definition relations_cache_for_schemas :: "adapter \<Rightarrow> (string \<times> string) list \<Rightarrow> unit comp" where
  "relations_cache_for_schemas self cache_schemas =
     (let schema_databases = remdups (map fst cache_schemas);
          cache_schema_names = set (map (\<lambda>cache_schema. lower (snd cache_schema)) cache_schemas)
      in case list_database_objects self cache_schema_names schema_databases of
           (events, Inl exc) \<Rightarrow> (events, Inl exc)
         | (events, Inr _) \<Rightarrow>
             (let cache_update = set cache_schemas
              in (events @ [Cache_Update_Schemas cache_update], Inr ())))"

definition set_relations_cache :: "adapter \<Rightarrow> (string \<times> string) list \<Rightarrow> bool \<Rightarrow> unit comp" where
  "set_relations_cache self cache_schemas clear =
     (case relations_cache_for_schemas self cache_schemas of
        (events, outcome) \<Rightarrow>
          ([Lock_Acquire] @ (if clear then [Cache_Clear] else []) @ events @ [Lock_Release],
           outcome))"

subsection \<open>Reading a trace\<close>

text \<open>The macro calls and the cache insertions among the events of a call, in order.\<close>

fun macro_calls :: "event list \<Rightarrow> (string \<times> kwargs) list" where
  "macro_calls [] = []"
| "macro_calls (Execute_Macro macro_name kw # events) = (macro_name, kw) # macro_calls events"
| "macro_calls (_ # events) = macro_calls events"

fun cache_adds :: "event list \<Rightarrow> relation list" where
  "cache_adds [] = []"
| "cache_adds (Cache_Add r # events) = r # cache_adds events"
| "cache_adds (_ # events) = cache_adds events"

text \<open>
  The call that lists the objects of a database, the warehouse's answer to it, and the
  exception that \<open>list_database_objects\<close> raises for a database error with the text
  \<open>exc\<close>.
\<close>

definition objects_query :: "string \<Rightarrow> string \<times> kwargs" where
  "objects_query database = (LIST_DATABASE_OBJECTS_MACRO_NAME, Kw_database database)"

abbreviation objects_of :: "adapter \<Rightarrow> string \<Rightarrow> exn + row list" where
  "objects_of self database \<equiv>
     execute_macro self LIST_DATABASE_OBJECTS_MACRO_NAME (Kw_database database)"

abbreviation objects_error :: "string \<Rightarrow> string \<Rightarrow> exn" where
  "objects_error database exc \<equiv>
     RuntimeException
       (''Database error while listing objects in database '' @
        [CHR 0x22] @ database @ [CHR 0x22, CHR 0x0A] @ exc)"

subsection \<open>The relation cache\<close>

text \<open>
  Modelled from the spec: the cache behind \<^verbatim>\<open>self.cache\<close> is not part of the sources
  at hand. The spec's CacheState owns \<open>relationsByKey\<close>, from the normalized
  (database, schema, identifier) to the descriptor, and \<open>knownSchemas\<close>, the normalized
  (database, schema) pairs. \<open>clear\<close> removes all entries and all known-schema markers;
  \<open>add\<close> inserts or overwrites the descriptor at its normalized key and marks its schema
  as known; marking a set of pairs as known adds their normalized pairs;
  \<open>isSchemaKnown\<close> holds iff the normalized pair is in \<open>knownSchemas\<close>;
  \<open>getRelationsInSchema\<close> is the set of descriptors whose normalized (database, schema)
  matches. The spec leaves the normalization of the cache open: it is the parameter
  \<open>nrm\<close>, applied to each part.
\<close>

record cache_state =
  relationsByKey :: "((string option \<times> string option \<times> string option) \<times> relation) list"
  knownSchemas :: "(string option \<times> string option) set"

definition cache_key ::
  "(string \<Rightarrow> string) \<Rightarrow> relation \<Rightarrow> string option \<times> string option \<times> string option"
where
  "cache_key nrm r =
     (map_option nrm (rel_database r), map_option nrm (rel_schema r),
      map_option nrm (rel_identifier r))"

definition schema_key :: "(string \<Rightarrow> string) \<Rightarrow> string \<Rightarrow> string \<Rightarrow> string option \<times> string option" where
  "schema_key nrm database schema = (Some (nrm database), Some (nrm schema))"

definition cache_clear :: "cache_state \<Rightarrow> cache_state" where
  "cache_clear c = \<lparr>relationsByKey = [], knownSchemas = {}\<rparr>"

definition cache_add :: "(string \<Rightarrow> string) \<Rightarrow> relation \<Rightarrow> cache_state \<Rightarrow> cache_state" where
  "cache_add nrm r c =
     \<lparr>relationsByKey =
        (cache_key nrm r, r) # filter (\<lambda>entry. fst entry \<noteq> cache_key nrm r) (relationsByKey c),
      knownSchemas =
        insert (map_option nrm (rel_database r), map_option nrm (rel_schema r)) (knownSchemas c)\<rparr>"

definition cache_update_schemas ::
  "(string \<Rightarrow> string) \<Rightarrow> (string \<times> string) set \<Rightarrow> cache_state \<Rightarrow> cache_state"
where
  "cache_update_schemas nrm pairs c =
     \<lparr>relationsByKey = relationsByKey c,
      knownSchemas = (\<lambda>pair. schema_key nrm (fst pair) (snd pair)) ` pairs \<union> knownSchemas c\<rparr>"

definition isSchemaKnown :: "(string \<Rightarrow> string) \<Rightarrow> cache_state \<Rightarrow> string \<Rightarrow> string \<Rightarrow> bool" where
  "isSchemaKnown nrm c database schema = (schema_key nrm database schema \<in> knownSchemas c)"

definition getRelationsInSchema ::
  "(string \<Rightarrow> string) \<Rightarrow> cache_state \<Rightarrow> string \<Rightarrow> string \<Rightarrow> relation set"
where
  "getRelationsInSchema nrm c database schema =
     set (map snd (filter (\<lambda>entry. (fst (fst entry), fst (snd (fst entry))) =
                                     schema_key nrm database schema)
                     (relationsByKey c)))"

text \<open>The cache after the events of a call: the cache events act on it, in order.\<close>

fun cache_event :: "(string \<Rightarrow> string) \<Rightarrow> cache_state \<Rightarrow> event \<Rightarrow> cache_state" where
  "cache_event nrm c Cache_Clear = cache_clear c"
| "cache_event nrm c (Cache_Add r) = cache_add nrm r c"
| "cache_event nrm c (Cache_Update_Schemas pairs) = cache_update_schemas nrm pairs c"
| "cache_event nrm c _ = c"

definition cache_after :: "(string \<Rightarrow> string) \<Rightarrow> event list \<Rightarrow> cache_state \<Rightarrow> cache_state" where
  "cache_after nrm events c = foldl (cache_event nrm) c events"

subsection \<open>A warehouse to run the adapter on\<close>

text \<open>
  Modelled from the spec: the parser of relation types behind
  \<^verbatim>\<open>Relation.get_relation_type\<close> is not part of the sources at hand; the lower-cased
  names of the spec's kinds are known, every other string (\<^verbatim>\<open>"stage"\<close>) is not.
\<close>

definition RelationType :: "string \<Rightarrow> relation_type option" where
  "RelationType s =
     (if s = ''table'' then Some Table
      else if s = ''view'' then Some View
      else if s = ''cte'' then Some CTE
      else if s = ''materializedview'' then Some MaterializedView
      else if s = ''external'' then Some External
      else None)"

definition object_row :: "string \<Rightarrow> string \<Rightarrow> string \<Rightarrow> string \<Rightarrow> row" where
  "object_row d s n k =
     \<lparr>col_database_name = d, col_schema_name = s, col_name = n, col_kind = k\<rparr>"

text \<open>
  A session whose default warehouse is \<^verbatim>\<open>WH\<close> and whose active warehouse is
  \<^verbatim>\<open>LOAD_WH\<close>. Database \<^verbatim>\<open>ANALYTICS\<close> holds a table, a view and a stage in
  \<^verbatim>\<open>PUBLIC\<close>; database \<^verbatim>\<open>DB1\<close> holds one table in schema \<^verbatim>\<open>b\<close>; database
  \<^verbatim>\<open>DB2\<close> is empty; every other database does not exist. Listing the schemas answers
  for \<^verbatim>\<open>ANALYTICS\<close> only. Listing the relations of a schema of \<^verbatim>\<open>ANALYTICS\<close> other
  than \<^verbatim>\<open>PUBLIC\<close> fails as for a schema that does not exist, and in another database as
  for a lost connection.
\<close>

definition demo_objects :: "string \<Rightarrow> exn + row list" where
  "demo_objects database =
     (if database = ''ANALYTICS'' then
        Inr [object_row ''ANALYTICS'' ''PUBLIC'' ''ORDERS'' ''TABLE'',
             object_row ''ANALYTICS'' ''PUBLIC'' ''V1'' ''VIEW'',
             object_row ''ANALYTICS'' ''PUBLIC'' ''S1'' ''STAGE'']
      else if database = ''DB1'' then Inr [object_row ''DB1'' ''b'' ''T'' ''TABLE'']
      else if database = ''DB2'' then Inr []
      else Inl (DatabaseException ''Database does not exist''))"

definition demo_schemas :: "string \<Rightarrow> exn + row list" where
  "demo_schemas database =
     (if database = ''ANALYTICS'' then
        Inr [object_row ''ANALYTICS'' [] ''INFORMATION_SCHEMA'' [],
             object_row ''ANALYTICS'' [] ''PUBLIC'' []]
      else Inl (DatabaseException ''Database does not exist''))"

definition demo_adapter :: adapter where
  "demo_adapter =
     \<lparr>config_quoting = \<lparr>q_database = False, q_schema = True, q_identifier = False\<rparr>,
      credentials_warehouse = Some ''WH'',
      execute = (\<lambda>sql fetch.
        if sql = ''select current_warehouse() as warehouse'' then Inr ([Some ''LOAD_WH''] # [])
        else Inr []),
      execute_macro = (\<lambda>macro_name kw.
        case kw of
          Kw_database database \<Rightarrow>
            if macro_name = LIST_SCHEMAS_MACRO_NAME then demo_schemas database
            else demo_objects database
        | Kw_schema_relation r \<Rightarrow>
            if rel_database r \<noteq> Some ''ANALYTICS''
            then Inl (DatabaseException ''Connection reset by peer'')
            else if rel_schema r = Some ''PUBLIC'' then demo_objects ''ANALYTICS''
            else Inl (DatabaseException ''SQL compilation error: Object does not exist'')),
      get_relation_type = RelationType\<rparr>"

text \<open>A relation that names a schema, and one that names a table or view in it.\<close>

definition schema_of :: "string \<Rightarrow> string \<Rightarrow> relation" where
  "schema_of d s =
     \<lparr>rel_database = Some d, rel_schema = Some s, rel_identifier = None,
      rel_quote_policy = \<lparr>q_database = True, q_schema = True, q_identifier = True\<rparr>,
      rel_type = Unknown\<rparr>"

definition relation_of :: "string \<Rightarrow> string \<Rightarrow> string \<Rightarrow> relation" where
  "relation_of d s i = (schema_of d s)\<lparr>rel_identifier := Some i\<rparr>"

text \<open>
  The column lookup of the base class on that warehouse: \<^verbatim>\<open>ORDERS\<close> has two columns,
  any other relation of \<^verbatim>\<open>ANALYTICS\<close> does not exist, and no other database is reached.
\<close>

definition demo_get_columns :: "relation \<Rightarrow> exn + string list" where
  "demo_get_columns r =
     (if rel_database r \<noteq> Some ''ANALYTICS''
      then Inl (DatabaseException ''Connection reset by peer'')
      else if rel_identifier r = Some ''ORDERS'' then Inr [''ID'', ''TOTAL'']
      else Inl (DatabaseException
                 ''SQL compilation error: Table does not exist or not authorized.''))"

section \<open>Results on the identifier normalizer\<close>

lemma upper_char_idem: "upper_char (upper_char c) = upper_char c"
proof (cases "97 \<le> (of_char c :: nat) \<and> (of_char c :: nat) \<le> 122")
  case True
  let ?n = "of_char c :: nat"
  let ?d = "char_of (?n - 32) :: char"
  from True have "?n - 32 < 256" by arith
  then have eq: "(of_char ?d :: nat) = ?n - 32"
    by simp
  from True have out: "\<not> (97 \<le> ?n - 32 \<and> ?n - 32 \<le> 122)" by arith
  have step: "upper_char c = ?d"
    using True by (simp add: upper_char_def Let_def)
  have "upper_char ?d = ?d"
    unfolding upper_char_def Let_def eq using out by (rule if_not_P)
  with step show ?thesis by simp
next
  case False
  have "upper_char c = c"
    unfolding upper_char_def Let_def using False by (rule if_not_P)
  then show ?thesis by simp
qed

lemma upper_idem: "upper (upper s) = upper s"
  by (simp add: upper_def upper_char_idem)

lemma upper_examples:
  "upper ''db'' = ''DB''" "upper ''sch'' = ''SCH''" "upper ''Tbl'' = ''TBL''"
  by code_simp+

lemma make_match_kwargs_eq:
  "make_match_kwargs self database schema identifier =
     filter_null_values
       [(''identifier'',
         (if q_identifier (config_quoting self) then identifier
          else map_option upper identifier)),
        (''schema'',
         (if q_schema (config_quoting self) then schema else map_option upper schema)),
        (''database'',
         (if q_database (config_quoting self) then database
          else map_option upper database))]"
  by (cases database; cases schema; cases "identifier")
     (simp_all add: make_match_kwargs_def Let_def)

lemma map_of_filter_null_values3:
  "k1 \<noteq> k2 \<Longrightarrow> k1 \<noteq> k3 \<Longrightarrow> k2 \<noteq> k3 \<Longrightarrow>
   map_of (filter_null_values [(k1, v1), (k2, v2), (k3, v3)]) k =
     (if k = k1 then v1 else if k = k2 then v2 else if k = k3 then v3 else None)"
  by (cases v1; cases v2; cases v3) (auto simp: filter_null_values_def)

text \<open>
  Claim C4. The result of \<open>make_match_kwargs\<close>, read as a dictionary, binds each of the
  keys \<^verbatim>\<open>identifier\<close>, \<^verbatim>\<open>schema\<close> and \<^verbatim>\<open>database\<close> to the upper-cased component where
  the component is present and its quoting flag is false, to the unchanged component
  where it is present and its flag is true, and binds no other key; the keys of the
  result are those of the present components (an absent component is dropped, never an
  empty string). With all three flags false, \<^verbatim>\<open>("db", "sch", "Tbl")\<close> gives
  \<^verbatim>\<open>("DB", "SCH", "TBL")\<close>.
\<close>

theorem make_match_kwargs_folds_unquoted_parts:
  "map_of (make_match_kwargs self database schema identifier) key =
     (if key = ''identifier'' then
        (if q_identifier (config_quoting self) then identifier else map_option upper identifier)
      else if key = ''schema'' then
        (if q_schema (config_quoting self) then schema else map_option upper schema)
      else if key = ''database'' then
        (if q_database (config_quoting self) then database else map_option upper database)
      else None)
   \<and> map fst (make_match_kwargs self database schema identifier) =
       filter (\<lambda>k. (if k = ''identifier'' then identifier
                     else if k = ''schema'' then schema else database) \<noteq> None)
         [''identifier'', ''schema'', ''database'']
   \<and> make_match_kwargs
         (self\<lparr>config_quoting :=
                 \<lparr>q_database = False, q_schema = False, q_identifier = False\<rparr>\<rparr>)
         (Some ''db'') (Some ''sch'') (Some ''Tbl'') =
       [(''identifier'', ''TBL''), (''schema'', ''SCH''), (''database'', ''DB'')]"
proof (intro conjI)
  show "map_of (make_match_kwargs self database schema identifier) key =
     (if key = ''identifier'' then
        (if q_identifier (config_quoting self) then identifier else map_option upper identifier)
      else if key = ''schema'' then
        (if q_schema (config_quoting self) then schema else map_option upper schema)
      else if key = ''database'' then
        (if q_database (config_quoting self) then database else map_option upper database)
      else None)"
    unfolding make_match_kwargs_eq
    by (subst map_of_filter_null_values3) simp_all
  show "map fst (make_match_kwargs self database schema identifier) =
       filter (\<lambda>k. (if k = ''identifier'' then identifier
                     else if k = ''schema'' then schema else database) \<noteq> None)
         [''identifier'', ''schema'', ''database'']"
    unfolding make_match_kwargs_eq
    by (cases database; cases schema; cases "identifier")
       (simp_all add: filter_null_values_def)
  show "make_match_kwargs
         (self\<lparr>config_quoting :=
                 \<lparr>q_database = False, q_schema = False, q_identifier = False\<rparr>\<rparr>)
         (Some ''db'') (Some ''sch'') (Some ''Tbl'') =
       [(''identifier'', ''TBL''), (''schema'', ''SCH''), (''database'', ''DB'')]"
    unfolding make_match_kwargs_eq by (simp add: filter_null_values_def upper_examples)
qed

text \<open>
  On the demo adapter (database and identifier unquoted, schema quoted) the triple
  \<^verbatim>\<open>("db", None, "Tbl")\<close> gives \<^verbatim>\<open>DB\<close> and \<^verbatim>\<open>TBL\<close> and no schema.
\<close>

theorem make_match_kwargs_folds_unquoted_parts_witness:
  "map_of (make_match_kwargs demo_adapter (Some ''db'') None (Some ''Tbl'')) ''database''
     = Some ''DB''
   \<and> map_of (make_match_kwargs demo_adapter (Some ''db'') None (Some ''Tbl'')) ''schema''
     = None
   \<and> map fst (make_match_kwargs demo_adapter (Some ''db'') None (Some ''Tbl''))
     = [''identifier'', ''database'']"
proof -
  have q: "config_quoting demo_adapter =
      \<lparr>q_database = False, q_schema = True, q_identifier = False\<rparr>"
    by (simp add: demo_adapter_def)
  note t = make_match_kwargs_folds_unquoted_parts
             [of demo_adapter "Some ''db''" None "Some ''Tbl''"]
  from t [of "''database''"] have a:
    "map_of (make_match_kwargs demo_adapter (Some ''db'') None (Some ''Tbl'')) ''database''
       = Some ''DB''"
    by (simp add: q upper_examples)
  from t [of "''schema''"] have b:
    "map_of (make_match_kwargs demo_adapter (Some ''db'') None (Some ''Tbl'')) ''schema''
       = None"
    by (simp add: q)
  from t [of "''schema''"] have c:
    "map fst (make_match_kwargs demo_adapter (Some ''db'') None (Some ''Tbl''))
       = [''identifier'', ''database'']"
    by simp
  from a b c show ?thesis by simp
qed

text \<open>
  Claim C5. Normalization is idempotent: the components of a normalized triple, read from
  the result (an absent key is an absent component), normalize to the same result, for
  every triple and all quoting flags.
\<close>

theorem make_match_kwargs_idempotent:
  "make_match_kwargs self
     (map_of (make_match_kwargs self database schema identifier) ''database'')
     (map_of (make_match_kwargs self database schema identifier) ''schema'')
     (map_of (make_match_kwargs self database schema identifier) ''identifier'')
   = make_match_kwargs self database schema identifier"
  unfolding make_match_kwargs_eq
  by (cases database; cases schema; cases "identifier")
     (simp_all add: filter_null_values_def upper_idem)

theorem make_match_kwargs_idempotent_witness:
  "make_match_kwargs demo_adapter (Some ''db'') None (Some ''Tbl'')
     = [(''identifier'', ''TBL''), (''database'', ''DB'')]
   \<and> make_match_kwargs demo_adapter (Some ''DB'') None (Some ''TBL'')
     = [(''identifier'', ''TBL''), (''database'', ''DB'')]"
proof -
  have once: "make_match_kwargs demo_adapter (Some ''db'') None (Some ''Tbl'')
      = [(''identifier'', ''TBL''), (''database'', ''DB'')]"
    unfolding make_match_kwargs_eq
    by (simp add: demo_adapter_def filter_null_values_def upper_examples)
  from make_match_kwargs_idempotent [of demo_adapter "Some ''db''" None "Some ''Tbl''"]
  have "make_match_kwargs demo_adapter (Some ''DB'') None (Some ''TBL'')
      = [(''identifier'', ''TBL''), (''database'', ''DB'')]"
    unfolding once by simp
  with once show ?thesis by simp
qed

section \<open>Results on listing relations and columns\<close>

lemma str_contains_iff: "str_contains needle s \<longleftrightarrow> sublist needle s"
  by (induction s) (auto simp: sublist_Cons_right)

lemma list_relations_without_caching_rows:
  assumes "execute_macro self LIST_RELATIONS_MACRO_NAME (Kw_schema_relation schema_relation)
             = Inr results"
  shows "list_relations_without_caching self schema_relation =
           ([Execute_Macro LIST_RELATIONS_MACRO_NAME (Kw_schema_relation schema_relation)],
            Inr (map (database_object_to_relation self) results))"
  using assms
  by (simp add: list_relations_without_caching_def database_object_to_relation_def Let_def)

lemma lower_examples:
  "lower ''TABLE'' = ''table''" "lower ''VIEW'' = ''view''" "lower ''STAGE'' = ''stage''"
  by code_simp+

lemma RelationType_examples:
  "RelationType ''table'' = Some Table" "RelationType ''view'' = Some View"
  "RelationType ''stage'' = None"
  by (simp_all add: RelationType_def)

text \<open>
  Claim C6. The row loop of \<open>list_relations_without_caching\<close> and
  \<open>database_object_to_relation\<close> map a row alike: the per-schema listing of a table of
  rows is \<open>database_object_to_relation\<close> of each row, and that relation has the row's
  database, schema and name, the quote policy true for all three parts, and the type
  that the kind parses to, or External where it does not parse.
\<close>

theorem row_mappings_agree:
  "(execute_macro self LIST_RELATIONS_MACRO_NAME (Kw_schema_relation schema_relation)
       = Inr results \<longrightarrow>
     snd (list_relations_without_caching self schema_relation) =
       Inr (map (database_object_to_relation self) results))
   \<and> database_object_to_relation self r =
       \<lparr>rel_database = Some (col_database_name r), rel_schema = Some (col_schema_name r),
        rel_identifier = Some (col_name r),
        rel_quote_policy = \<lparr>q_database = True, q_schema = True, q_identifier = True\<rparr>,
        rel_type = (case get_relation_type self (lower (col_kind r)) of
                      Some known \<Rightarrow> known
                    | None \<Rightarrow> External)\<rparr>"
  by (simp add: list_relations_without_caching_rows)
     (simp add: database_object_to_relation_def Relation_create_def Let_def)

text \<open>
  On the demo warehouse the listing of \<^verbatim>\<open>ANALYTICS.PUBLIC\<close> is a table, a view and,
  for the kind \<^verbatim>\<open>STAGE\<close>, an external relation.
\<close>

theorem row_mappings_agree_witness:
  "snd (list_relations_without_caching demo_adapter (schema_of ''ANALYTICS'' ''PUBLIC'')) =
     Inr [\<lparr>rel_database = Some ''ANALYTICS'', rel_schema = Some ''PUBLIC'',
           rel_identifier = Some ''ORDERS'',
           rel_quote_policy = \<lparr>q_database = True, q_schema = True, q_identifier = True\<rparr>,
           rel_type = Table\<rparr>,
          \<lparr>rel_database = Some ''ANALYTICS'', rel_schema = Some ''PUBLIC'',
           rel_identifier = Some ''V1'',
           rel_quote_policy = \<lparr>q_database = True, q_schema = True, q_identifier = True\<rparr>,
           rel_type = View\<rparr>,
          \<lparr>rel_database = Some ''ANALYTICS'', rel_schema = Some ''PUBLIC'',
           rel_identifier = Some ''S1'',
           rel_quote_policy = \<lparr>q_database = True, q_schema = True, q_identifier = True\<rparr>,
           rel_type = External\<rparr>]"
proof -
  have rows: "execute_macro demo_adapter LIST_RELATIONS_MACRO_NAME
                (Kw_schema_relation (schema_of ''ANALYTICS'' ''PUBLIC'')) =
              Inr [object_row ''ANALYTICS'' ''PUBLIC'' ''ORDERS'' ''TABLE'',
                   object_row ''ANALYTICS'' ''PUBLIC'' ''V1'' ''VIEW'',
                   object_row ''ANALYTICS'' ''PUBLIC'' ''S1'' ''STAGE'']"
    by (simp add: demo_adapter_def demo_objects_def schema_of_def)
  have parse: "get_relation_type demo_adapter = RelationType"
    by (simp add: demo_adapter_def)
  note t = row_mappings_agree [of demo_adapter "schema_of ''ANALYTICS'' ''PUBLIC''"]
  from t [of _ "object_row ''ANALYTICS'' ''PUBLIC'' ''ORDERS'' ''TABLE''"]
       t [of _ "object_row ''ANALYTICS'' ''PUBLIC'' ''V1'' ''VIEW''"]
       t [of _ "object_row ''ANALYTICS'' ''PUBLIC'' ''S1'' ''STAGE''"] rows
  show ?thesis
    by (simp add: parse object_row_def lower_examples RelationType_examples)
qed

text \<open>
  Claim C7. \<open>list_relations_without_caching\<close> returns the empty list when the macro
  fails with a database error whose text contains \<^verbatim>\<open>Object does not exist\<close>, and
  \<open>get_columns_in_relation\<close> returns the empty list when the base lookup fails with a
  database error whose text contains \<^verbatim>\<open>does not exist or not authorized\<close>; every other
  failure of either is raised unchanged, and a successful column lookup is returned.
\<close>

theorem not_found_is_empty:
  "(execute_macro self LIST_RELATIONS_MACRO_NAME (Kw_schema_relation schema_relation) =
      Inl (DatabaseException exc) \<and> sublist ''Object does not exist'' exc \<longrightarrow>
    snd (list_relations_without_caching self schema_relation) = Inr [])
   \<and> (execute_macro self LIST_RELATIONS_MACRO_NAME (Kw_schema_relation schema_relation) =
        Inl failure \<and>
      (\<forall>msg. failure = DatabaseException msg \<longrightarrow> \<not> sublist ''Object does not exist'' msg) \<longrightarrow>
      snd (list_relations_without_caching self schema_relation) = Inl failure)
   \<and> (super_get_columns_in_relation relation = Inl (DatabaseException exc') \<and>
      sublist ''does not exist or not authorized'' exc' \<longrightarrow>
      get_columns_in_relation super_get_columns_in_relation relation = Inr [])
   \<and> (super_get_columns_in_relation relation = Inl failure' \<and>
      (\<forall>msg. failure' = DatabaseException msg \<longrightarrow>
             \<not> sublist ''does not exist or not authorized'' msg) \<longrightarrow>
      get_columns_in_relation super_get_columns_in_relation relation = Inl failure')
   \<and> (super_get_columns_in_relation relation = Inr columns \<longrightarrow>
      get_columns_in_relation super_get_columns_in_relation relation = Inr columns)"
  by (cases failure; cases failure')
     (simp_all add: list_relations_without_caching_def get_columns_in_relation_def
        Let_def str_contains_iff)

lemma message_examples:
  "sublist ''Object does not exist'' ''SQL compilation error: Object does not exist''"
  "\<not> sublist ''Object does not exist'' ''Connection reset by peer''"
  "sublist ''does not exist or not authorized''
     ''SQL compilation error: Table does not exist or not authorized.''"
  "\<not> sublist ''does not exist or not authorized'' ''Connection reset by peer''"
  unfolding str_contains_iff [symmetric] by code_simp+

text \<open>
  On the demo warehouse: a schema that does not exist lists as empty and a relation that
  does not exist has no columns, while a lost connection is raised by both.
\<close>

theorem not_found_is_empty_witness:
  "snd (list_relations_without_caching demo_adapter (schema_of ''ANALYTICS'' ''STAGING'')) = Inr []
   \<and> snd (list_relations_without_caching demo_adapter (schema_of ''SALES'' ''PUBLIC'')) =
       Inl (DatabaseException ''Connection reset by peer'')
   \<and> get_columns_in_relation demo_get_columns (relation_of ''ANALYTICS'' ''PUBLIC'' ''NEW'') = Inr []
   \<and> get_columns_in_relation demo_get_columns (relation_of ''SALES'' ''PUBLIC'' ''NEW'') =
       Inl (DatabaseException ''Connection reset by peer'')
   \<and> get_columns_in_relation demo_get_columns (relation_of ''ANALYTICS'' ''PUBLIC'' ''ORDERS'') =
       Inr [''ID'', ''TOTAL'']"
proof -
  have m1: "execute_macro demo_adapter LIST_RELATIONS_MACRO_NAME
              (Kw_schema_relation (schema_of ''ANALYTICS'' ''STAGING'')) =
            Inl (DatabaseException ''SQL compilation error: Object does not exist'')"
    by (simp add: demo_adapter_def schema_of_def)
  have m2: "execute_macro demo_adapter LIST_RELATIONS_MACRO_NAME
              (Kw_schema_relation (schema_of ''SALES'' ''PUBLIC'')) =
            Inl (DatabaseException ''Connection reset by peer'')"
    by (simp add: demo_adapter_def schema_of_def)
  have c1: "demo_get_columns (relation_of ''ANALYTICS'' ''PUBLIC'' ''NEW'') =
            Inl (DatabaseException
                  ''SQL compilation error: Table does not exist or not authorized.'')"
    by (simp add: demo_get_columns_def relation_of_def schema_of_def)
  have c2: "demo_get_columns (relation_of ''SALES'' ''PUBLIC'' ''NEW'') =
            Inl (DatabaseException ''Connection reset by peer'')"
    by (simp add: demo_get_columns_def relation_of_def schema_of_def)
  have c3: "demo_get_columns (relation_of ''ANALYTICS'' ''PUBLIC'' ''ORDERS'') =
            Inr [''ID'', ''TOTAL'']"
    by (simp add: demo_get_columns_def relation_of_def schema_of_def)
  from not_found_is_empty
         [of demo_adapter "schema_of ''ANALYTICS'' ''STAGING''"
             "''SQL compilation error: Object does not exist''" _
             demo_get_columns "relation_of ''ANALYTICS'' ''PUBLIC'' ''NEW''"
             "''SQL compilation error: Table does not exist or not authorized.''"]
  have a: "snd (list_relations_without_caching demo_adapter
                  (schema_of ''ANALYTICS'' ''STAGING'')) = Inr []"
    and b: "get_columns_in_relation demo_get_columns
              (relation_of ''ANALYTICS'' ''PUBLIC'' ''NEW'') = Inr []"
    by (simp_all add: m1 c1 message_examples)
  from not_found_is_empty
         [of demo_adapter "schema_of ''SALES'' ''PUBLIC''" _
             "DatabaseException ''Connection reset by peer''"
             demo_get_columns "relation_of ''SALES'' ''PUBLIC'' ''NEW''" _
             "DatabaseException ''Connection reset by peer''"]
  have c: "snd (list_relations_without_caching demo_adapter (schema_of ''SALES'' ''PUBLIC'')) =
             Inl (DatabaseException ''Connection reset by peer'')"
    and d: "get_columns_in_relation demo_get_columns (relation_of ''SALES'' ''PUBLIC'' ''NEW'') =
             Inl (DatabaseException ''Connection reset by peer'')"
    by (simp_all add: m2 c2 message_examples)
  from not_found_is_empty
         [of _ _ _ _ demo_get_columns "relation_of ''ANALYTICS'' ''PUBLIC'' ''ORDERS''" _ _
             "[''ID'', ''TOTAL'']"]
  have e: "get_columns_in_relation demo_get_columns
             (relation_of ''ANALYTICS'' ''PUBLIC'' ''ORDERS'') = Inr [''ID'', ''TOTAL'']"
    by (simp add: c3)
  from a b c d e show ?thesis by simp
qed

section \<open>Results on the warehouse hooks\<close>

lemma use_warehouse_events:
  "fst (use_warehouse self w) = [Execute (''use warehouse '' @ w) False]"
  by (simp add: use_warehouse_def Let_def)

lemma use_warehouse_outcome:
  "snd (use_warehouse self w) =
     (case execute self (''use warehouse '' @ w) False of
        Inl exc \<Rightarrow> Inl exc
      | Inr _ \<Rightarrow> Inr ())"
  by (simp add: use_warehouse_def Let_def)

lemma pre_model_hook_default:
  assumes "config ''snowflake_warehouse'' = None \<or> config ''snowflake_warehouse'' = Some None \<or>
           config ''snowflake_warehouse'' = Some (credentials_warehouse self)"
  shows "pre_model_hook self config = ([], Inr None)"
  using assms by (auto simp: pre_model_hook_def Let_def split: option.splits)

lemma pre_model_hook_switch:
  assumes "config ''snowflake_warehouse'' = Some (Some w)"
      and "credentials_warehouse self \<noteq> Some w"
  shows "pre_model_hook self config =
     (case execute self ''select current_warehouse() as warehouse'' True of
        Inl exc \<Rightarrow> ([Execute ''select current_warehouse() as warehouse'' True], Inl exc)
      | Inr [] \<Rightarrow>
          ([Execute ''select current_warehouse() as warehouse'' True],
           Inl (RuntimeException ''Could not get current warehouse: no results''))
      | Inr ([] # _) \<Rightarrow>
          ([Execute ''select current_warehouse() as warehouse'' True],
           Inl (RuntimeException ''Could not get current warehouse: no results''))
      | Inr ((cell # _) # _) \<Rightarrow>
          ([Execute ''select current_warehouse() as warehouse'' True,
            Execute (''use warehouse '' @ w) False],
           case execute self (''use warehouse '' @ w) False of
             Inl exc \<Rightarrow> Inl exc
           | Inr _ \<Rightarrow> Inr (Some (str cell))))"
proof -
  from assms have ne: "Some w \<noteq> credentials_warehouse self" by auto
  show ?thesis
    using assms(1) ne
    by (auto simp: pre_model_hook_def get_warehouse_def use_warehouse_def Let_def
             split: sum.splits list.splits)
qed

text \<open>
  Claim C9. \<open>pre_model_hook\<close> returns no saved context and sends nothing when the
  requested warehouse is unspecified (the key is unbound, or bound to \<^verbatim>\<open>None\<close>) or
  equals the session default. Otherwise it first queries the active warehouse; where that
  query answers with a cell and the switch succeeds, it has sent exactly the query and the
  switch to the requested warehouse and returns the previously active one; and whenever
  it returns at all, it returns a saved context and has sent exactly these two.
  \<open>post_model_hook\<close> sends nothing without a saved context and the switch to the saved
  warehouse with one.
\<close>

theorem warehouse_hooks:
  "(config ''snowflake_warehouse'' = None \<or> config ''snowflake_warehouse'' = Some None \<or>
    config ''snowflake_warehouse'' = Some (credentials_warehouse self) \<longrightarrow>
      pre_model_hook self config = ([], Inr None))
   \<and> (config ''snowflake_warehouse'' = Some (Some w) \<and> credentials_warehouse self \<noteq> Some w \<and>
      execute self ''select current_warehouse() as warehouse'' True = Inr ((cell # cells) # rows) \<and>
      execute self (''use warehouse '' @ w) False = Inr answer \<longrightarrow>
      pre_model_hook self config =
        ([Execute ''select current_warehouse() as warehouse'' True,
          Execute (''use warehouse '' @ w) False],
         Inr (Some (str cell))))
   \<and> (config ''snowflake_warehouse'' = Some (Some w) \<and> credentials_warehouse self \<noteq> Some w \<longrightarrow>
      hd (fst (pre_model_hook self config)) =
        Execute ''select current_warehouse() as warehouse'' True \<and>
      (\<forall>saved. snd (pre_model_hook self config) = Inr saved \<longrightarrow>
         saved \<noteq> None \<and>
         fst (pre_model_hook self config) =
           [Execute ''select current_warehouse() as warehouse'' True,
            Execute (''use warehouse '' @ w) False]))
   \<and> post_model_hook self config None = ([], Inr ())
   \<and> fst (post_model_hook self config (Some previous)) =
       [Execute (''use warehouse '' @ previous) False]"
proof (intro conjI impI allI)
  assume "config ''snowflake_warehouse'' = None \<or> config ''snowflake_warehouse'' = Some None \<or>
    config ''snowflake_warehouse'' = Some (credentials_warehouse self)"
  then show "pre_model_hook self config = ([], Inr None)"
    by (rule pre_model_hook_default)
next
  assume "config ''snowflake_warehouse'' = Some (Some w) \<and> credentials_warehouse self \<noteq> Some w \<and>
      execute self ''select current_warehouse() as warehouse'' True = Inr ((cell # cells) # rows) \<and>
      execute self (''use warehouse '' @ w) False = Inr answer"
  then show "pre_model_hook self config =
        ([Execute ''select current_warehouse() as warehouse'' True,
          Execute (''use warehouse '' @ w) False],
         Inr (Some (str cell)))"
    by (simp add: pre_model_hook_switch)
next
  assume a: "config ''snowflake_warehouse'' = Some (Some w) \<and> credentials_warehouse self \<noteq> Some w"
  then show "hd (fst (pre_model_hook self config)) =
        Execute ''select current_warehouse() as warehouse'' True"
    by (simp add: pre_model_hook_switch split: sum.splits list.splits)
  fix saved
  assume "snd (pre_model_hook self config) = Inr saved"
  with a show "saved \<noteq> None"
    by (auto simp: pre_model_hook_switch split: sum.splits list.splits)
  from a \<open>snd (pre_model_hook self config) = Inr saved\<close>
  show "fst (pre_model_hook self config) =
           [Execute ''select current_warehouse() as warehouse'' True,
            Execute (''use warehouse '' @ w) False]"
    by (auto simp: pre_model_hook_switch split: sum.splits list.splits)
next
  show "post_model_hook self config None = ([], Inr ())"
    by (simp add: post_model_hook_def)
  show "fst (post_model_hook self config (Some previous)) =
       [Execute (''use warehouse '' @ previous) False]"
    by (simp add: post_model_hook_def use_warehouse_events)
qed

text \<open>
  On the demo session (default \<^verbatim>\<open>WH\<close>, active \<^verbatim>\<open>LOAD_WH\<close>): no request and a request
  for \<^verbatim>\<open>WH\<close> do nothing; a request for \<^verbatim>\<open>TRANSFORM_WH\<close> queries, switches and saves
  \<^verbatim>\<open>LOAD_WH\<close>, which the exit hook restores.
\<close>

theorem warehouse_hooks_witness:
  "pre_model_hook demo_adapter Map.empty = ([], Inr None)
   \<and> pre_model_hook demo_adapter [''snowflake_warehouse'' \<mapsto> Some ''WH''] = ([], Inr None)
   \<and> pre_model_hook demo_adapter [''snowflake_warehouse'' \<mapsto> Some ''TRANSFORM_WH''] =
       ([Execute ''select current_warehouse() as warehouse'' True,
         Execute ''use warehouse TRANSFORM_WH'' False],
        Inr (Some ''LOAD_WH''))
   \<and> fst (post_model_hook demo_adapter Map.empty (Some ''LOAD_WH'')) =
       [Execute ''use warehouse LOAD_WH'' False]"
proof -
  have d: "credentials_warehouse demo_adapter = Some ''WH''"
    by (simp add: demo_adapter_def)
  have q: "execute demo_adapter ''select current_warehouse() as warehouse'' True =
             Inr ([Some ''LOAD_WH''] # [])"
    by (simp add: demo_adapter_def)
  have u: "execute demo_adapter (''use warehouse '' @ ''TRANSFORM_WH'') False = Inr []"
    by (simp add: demo_adapter_def)
  from warehouse_hooks [of Map.empty demo_adapter]
  have a: "pre_model_hook demo_adapter Map.empty = ([], Inr None)"
    by simp
  from warehouse_hooks [of "[''snowflake_warehouse'' \<mapsto> Some ''WH'']" demo_adapter]
  have b: "pre_model_hook demo_adapter [''snowflake_warehouse'' \<mapsto> Some ''WH''] =
             ([], Inr None)"
    by (simp add: d)
  from warehouse_hooks
         [of "[''snowflake_warehouse'' \<mapsto> Some ''TRANSFORM_WH'']" demo_adapter
             "''TRANSFORM_WH''" "Some ''LOAD_WH''" "[]" "[]" "[]"] q u
  have c: "pre_model_hook demo_adapter [''snowflake_warehouse'' \<mapsto> Some ''TRANSFORM_WH''] =
             ([Execute ''select current_warehouse() as warehouse'' True,
               Execute ''use warehouse TRANSFORM_WH'' False],
              Inr (Some ''LOAD_WH''))"
    by (simp add: d str_def)
  from warehouse_hooks [of Map.empty demo_adapter _ _ _ _ _ "''LOAD_WH''"]
  have e: "fst (post_model_hook demo_adapter Map.empty (Some ''LOAD_WH'')) =
             [Execute ''use warehouse LOAD_WH'' False]"
    by simp
  from a b c e show ?thesis by simp
qed

text \<open>
  Claim C10. With a requested warehouse \<open>w\<close> and a session default \<open>d\<close>,
  \<open>pre_model_hook\<close> stays put exactly when \<open>w = d\<close> as strings; any other \<open>w\<close>, also
  one that differs from \<open>d\<close> in letter case only, starts with the query of the active
  warehouse and, where that answers, sends \<^verbatim>\<open>use warehouse\<close> followed by \<open>w\<close> as it is.
\<close>

theorem warehouse_compared_verbatim:
  "config ''snowflake_warehouse'' = Some (Some w) \<and> credentials_warehouse self = Some d \<longrightarrow>
     (pre_model_hook self config = ([], Inr None) \<longleftrightarrow> w = d)
     \<and> (w \<noteq> d \<longrightarrow>
          hd (fst (pre_model_hook self config)) =
            Execute ''select current_warehouse() as warehouse'' True
          \<and> (\<forall>cell cells rows.
               execute self ''select current_warehouse() as warehouse'' True =
                 Inr ((cell # cells) # rows) \<longrightarrow>
               fst (pre_model_hook self config) =
                 [Execute ''select current_warehouse() as warehouse'' True,
                  Execute (''use warehouse '' @ w) False]))
     \<and> fst (use_warehouse self w) = [Execute (''use warehouse '' @ w) False]"
proof (intro impI conjI allI)
  assume a: "config ''snowflake_warehouse'' = Some (Some w) \<and> credentials_warehouse self = Some d"
  show "fst (use_warehouse self w) = [Execute (''use warehouse '' @ w) False]"
    by (rule use_warehouse_events)
  show "pre_model_hook self config = ([], Inr None) \<longleftrightarrow> w = d"
  proof
    assume "w = d"
    with a show "pre_model_hook self config = ([], Inr None)"
      by (simp add: pre_model_hook_default)
  next
    assume none: "pre_model_hook self config = ([], Inr None)"
    show "w = d"
    proof (rule ccontr)
      assume "w \<noteq> d"
      with a have "credentials_warehouse self \<noteq> Some w" by simp
      with a have "fst (pre_model_hook self config) \<noteq> []"
        by (simp add: pre_model_hook_switch split: sum.splits list.splits)
      with none show False by simp
    qed
  qed
  {
    assume "w \<noteq> d"
    with a have sw: "config ''snowflake_warehouse'' = Some (Some w)"
      "credentials_warehouse self \<noteq> Some w" by simp_all
    then show "hd (fst (pre_model_hook self config)) =
            Execute ''select current_warehouse() as warehouse'' True"
      by (simp add: pre_model_hook_switch split: sum.splits list.splits)
    fix cell cells rows
    assume "execute self ''select current_warehouse() as warehouse'' True =
                 Inr ((cell # cells) # rows)"
    with sw show "fst (pre_model_hook self config) =
                 [Execute ''select current_warehouse() as warehouse'' True,
                  Execute (''use warehouse '' @ w) False]"
      by (simp add: pre_model_hook_switch)
  }
qed

text \<open>
  On the demo session the request \<^verbatim>\<open>wh\<close> differs from the default \<^verbatim>\<open>WH\<close> in case
  only, and is switched to under its own spelling.
\<close>

theorem warehouse_compared_verbatim_witness:
  "upper ''wh'' = upper ''WH'' \<and> ''wh'' \<noteq> ''WH''
   \<and> pre_model_hook demo_adapter [''snowflake_warehouse'' \<mapsto> Some ''wh''] \<noteq> ([], Inr None)
   \<and> fst (pre_model_hook demo_adapter [''snowflake_warehouse'' \<mapsto> Some ''wh'']) =
       [Execute ''select current_warehouse() as warehouse'' True,
        Execute ''use warehouse wh'' False]"
proof -
  have up: "upper ''wh'' = upper ''WH''" by code_simp
  have d: "credentials_warehouse demo_adapter = Some ''WH''"
    by (simp add: demo_adapter_def)
  have q: "execute demo_adapter ''select current_warehouse() as warehouse'' True =
             Inr ([Some ''LOAD_WH''] # [])"
    by (simp add: demo_adapter_def)
  from warehouse_compared_verbatim
         [of "[''snowflake_warehouse'' \<mapsto> Some ''wh'']" "''wh''" demo_adapter "''WH''"] q
  have "pre_model_hook demo_adapter [''snowflake_warehouse'' \<mapsto> Some ''wh''] \<noteq> ([], Inr None)"
    and "fst (pre_model_hook demo_adapter [''snowflake_warehouse'' \<mapsto> Some ''wh'']) =
       [Execute ''select current_warehouse() as warehouse'' True,
        Execute ''use warehouse wh'' False]"
    by (simp_all add: d)
  with up show ?thesis by simp
qed

section \<open>Results on filling the relation cache\<close>

subsection \<open>The listings sent and the objects inserted\<close>

lemma macro_calls_append: "macro_calls (xs @ ys) = macro_calls xs @ macro_calls ys"
  by (induction xs rule: macro_calls.induct) simp_all

lemma cache_adds_append: "cache_adds (xs @ ys) = cache_adds xs @ cache_adds ys"
  by (induction xs rule: cache_adds.induct) simp_all

lemma macro_calls_add_database_objects:
  "macro_calls (add_database_objects self names results) = []"
  by (induction results) simp_all

lemma cache_adds_add_database_objects:
  "cache_adds (add_database_objects self names results) =
     map (database_object_to_relation self)
       (filter (\<lambda>obj. lower (col_schema_name obj) \<in> names) results)"
  by (induction results) simp_all

lemma set_cache_adds: "r \<in> set (cache_adds events) \<longleftrightarrow> Cache_Add r \<in> set events"
  by (induction events rule: cache_adds.induct) auto

lemma set_macro_calls:
  "(m, k) \<in> set (macro_calls events) \<longleftrightarrow> Execute_Macro m k \<in> set events"
  by (induction events rule: macro_calls.induct) auto

lemma list_database_objects_returns:
  assumes "list_database_objects self names dbs = (events, Inr u)"
  shows "macro_calls events = map objects_query dbs"
    and "\<forall>d \<in> set dbs. \<exists>rows. objects_of self d = Inr rows"
    and "cache_adds events =
           concat (map (\<lambda>d. case objects_of self d of
                               Inr rows \<Rightarrow>
                                 map (database_object_to_relation self)
                                   (filter (\<lambda>obj. lower (col_schema_name obj) \<in> names) rows)
                             | Inl _ \<Rightarrow> []) dbs)"
  using assms
proof (induction dbs arbitrary: events)
  case Nil
  { case 1 then show ?case by simp }
  { case 2 then show ?case by simp }
  { case 3 then show ?case by simp }
next
  case (Cons d dbs)
  { case 1 then show ?case 
      using Cons.IH(1)
      by (auto simp: Let_def objects_query_def macro_calls_append
            macro_calls_add_database_objects split: sum.splits exn.splits prod.splits) }
  { case 2 then show ?case
      using Cons.IH(2)
      by (auto simp: Let_def split: sum.splits exn.splits prod.splits) }
  { case 3 then show ?case
      using Cons.IH(3)
      by (auto simp: Let_def cache_adds_append cache_adds_add_database_objects
            split: sum.splits exn.splits prod.splits) }
qed


lemma add_database_objects_only_adds:
  "Cache_Update_Schemas pairs \<notin> set (add_database_objects self names results)"
  by (induction results) simp_all

lemma list_database_objects_first_failure:
  assumes "\<forall>d' \<in> set pre. \<exists>rows. objects_of self d' = Inr rows"
      and "objects_of self d = Inl e"
  shows "snd (list_database_objects self names (pre @ d # post)) =
           Inl (case e of DatabaseException exc \<Rightarrow> objects_error d exc | _ \<Rightarrow> e)"
    and "macro_calls (fst (list_database_objects self names (pre @ d # post))) =
           map objects_query (pre @ [d])"
    and "\<forall>pairs. Cache_Update_Schemas pairs \<notin>
           set (fst (list_database_objects self names (pre @ d # post)))"
  using assms
  by (induction pre)
     (auto simp: Let_def objects_query_def macro_calls_append
        macro_calls_add_database_objects add_database_objects_only_adds
        split: sum.splits exn.splits prod.splits)

lemma first_failure_split:
  assumes "d \<in> set dbs" and "objects_of self d = Inl e"
  obtains pre f post e' where "dbs = pre @ f # post"
    and "\<forall>d' \<in> set pre. \<exists>rows. objects_of self d' = Inr rows"
    and "objects_of self f = Inl e'"
proof -
  from assms have "\<exists>x \<in> set dbs. \<exists>e. objects_of self x = Inl e" by blast
  from split_list_first_prop [OF this]
  obtain pre f post where dbs: "dbs = pre @ f # post"
    and f: "\<exists>e. objects_of self f = Inl e"
    and pre: "\<forall>y \<in> set pre. \<not> (\<exists>e. objects_of self y = Inl e)"
    by blast
  from f obtain e' where e': "objects_of self f = Inl e'" by blast
  have "\<forall>d' \<in> set pre. \<exists>rows. objects_of self d' = Inr rows"
  proof
    fix d' assume "d' \<in> set pre"
    with pre have "\<not> (\<exists>e. objects_of self d' = Inl e)" by blast
    then show "\<exists>rows. objects_of self d' = Inr rows"
      by (cases "objects_of self d'") auto
  qed
  from that [OF dbs this e'] show thesis .
qed

lemma objects_query_inj: "objects_query a = objects_query b \<longleftrightarrow> a = b"
  by (simp add: objects_query_def)

lemma list_database_objects_queried_failure:
  assumes dist: "distinct dbs"
      and q: "objects_query d \<in> set (macro_calls (fst (list_database_objects self names dbs)))"
      and fail: "objects_of self d = Inl e"
  shows "snd (list_database_objects self names dbs) =
           Inl (case e of DatabaseException exc \<Rightarrow> objects_error d exc | _ \<Rightarrow> e)"
    and "\<exists>pre. macro_calls (fst (list_database_objects self names dbs)) =
           map objects_query (pre @ [d]) \<and> d \<notin> set pre"
    and "\<forall>pairs. Cache_Update_Schemas pairs \<notin> set (fst (list_database_objects self names dbs))"
proof -
  have "d \<in> set dbs"
  proof (cases "list_database_objects self names dbs")
    case (Pair events outcome)
    show ?thesis
    proof (cases outcome)
      case (Inr u)
      with Pair q list_database_objects_returns(1) [of self names dbs events u]
      show ?thesis by (auto simp: objects_query_inj)
    next
      case (Inl x)
      have "\<exists>d' e'. d' \<in> set dbs \<and> objects_of self d' = Inl e'"
      proof (rule ccontr)
        assume "\<not> ?thesis"
        then have all: "\<forall>d' \<in> set dbs. \<exists>rows. objects_of self d' = Inr rows"
          by (metis sum.exhaust)
        have "\<And>ev. snd (list_database_objects self names dbs) \<noteq> Inl x"
          using all
          by (induction dbs) (auto simp: Let_def split: sum.splits exn.splits prod.splits)
        with Pair Inl show False by simp
      qed
      then obtain d' e' where "d' \<in> set dbs" "objects_of self d' = Inl e'" by blast
      then obtain pre f post e'' where dbs: "dbs = pre @ f # post"
        and pre: "\<forall>d' \<in> set pre. \<exists>rows. objects_of self d' = Inr rows"
        and f: "objects_of self f = Inl e''"
        by (rule first_failure_split)
      from list_database_objects_first_failure(2) [OF pre f, of names post] dbs q
      show ?thesis by (auto simp: objects_query_inj)
    qed
  qed
  from this fail obtain pre f post e' where dbs: "dbs = pre @ f # post"
    and pre: "\<forall>d' \<in> set pre. \<exists>rows. objects_of self d' = Inr rows"
    and f: "objects_of self f = Inl e'"
    by (rule first_failure_split)
  note ff = list_database_objects_first_failure [OF pre f, of names post]
  from ff(2) dbs q have "d \<in> set pre \<or> d = f" by (auto simp: objects_query_inj)
  moreover have "d \<notin> set pre" using pre fail by auto
  ultimately have df: "d = f" by simp
  with f fail have ee: "e' = e" by simp
  from ff(1) dbs df ee
  show "snd (list_database_objects self names dbs) =
           Inl (case e of DatabaseException exc \<Rightarrow> objects_error d exc | _ \<Rightarrow> e)"
    by (simp split: exn.splits)
  from dist dbs df have "d \<notin> set pre" by auto
  with ff(2) dbs df
  show "\<exists>pre. macro_calls (fst (list_database_objects self names dbs)) =
           map objects_query (pre @ [d]) \<and> d \<notin> set pre"
    by blast
  from ff(3) dbs
  show "\<forall>pairs. Cache_Update_Schemas pairs \<notin> set (fst (list_database_objects self names dbs))"
    by simp
qed

lemma list_database_objects_calls_prefix:
  "prefix (macro_calls (fst (list_database_objects self names dbs))) (map objects_query dbs)"
  by (induction dbs)
     (auto simp: Let_def objects_query_def macro_calls_append
        macro_calls_add_database_objects split: sum.splits exn.splits prod.splits)


lemma set_relations_cache_eq:
  "set_relations_cache self cache_schemas clear =
     (case list_database_objects self ((\<lambda>cs. lower (snd cs)) ` set cache_schemas)
             (remdups (map fst cache_schemas)) of
        (events, Inl exc) \<Rightarrow>
          ([Lock_Acquire] @ (if clear then [Cache_Clear] else []) @ events @ [Lock_Release],
           Inl exc)
      | (events, Inr u) \<Rightarrow>
          ([Lock_Acquire] @ (if clear then [Cache_Clear] else []) @ events @
           [Cache_Update_Schemas (set cache_schemas)] @ [Lock_Release],
           Inr ()))"
  by (simp add: set_relations_cache_def relations_cache_for_schemas_def Let_def
        split: prod.splits sum.splits)

lemma set_relations_cache_calls:
  "macro_calls (fst (set_relations_cache self cache_schemas clear)) =
     macro_calls (fst (list_database_objects self ((\<lambda>cs. lower (snd cs)) ` set cache_schemas)
                        (remdups (map fst cache_schemas))))"
  by (simp add: set_relations_cache_eq macro_calls_append split: prod.splits sum.splits)

lemma set_relations_cache_adds:
  "cache_adds (fst (set_relations_cache self cache_schemas clear)) =
     cache_adds (fst (list_database_objects self ((\<lambda>cs. lower (snd cs)) ` set cache_schemas)
                        (remdups (map fst cache_schemas))))"
  by (simp add: set_relations_cache_eq cache_adds_append split: prod.splits sum.splits)

lemma set_relations_cache_outcome:
  "snd (set_relations_cache self cache_schemas clear) =
     snd (list_database_objects self ((\<lambda>cs. lower (snd cs)) ` set cache_schemas)
            (remdups (map fst cache_schemas)))"
  by (simp add: set_relations_cache_eq split: prod.splits sum.splits)

lemma set_relations_cache_raises:
  assumes "snd (list_database_objects self ((\<lambda>cs. lower (snd cs)) ` set cache_schemas)
                  (remdups (map fst cache_schemas))) = Inl e"
  shows "fst (set_relations_cache self cache_schemas clear) =
           [Lock_Acquire] @ (if clear then [Cache_Clear] else []) @
           fst (list_database_objects self ((\<lambda>cs. lower (snd cs)) ` set cache_schemas)
                  (remdups (map fst cache_schemas))) @ [Lock_Release]"
proof (cases "list_database_objects self ((\<lambda>cs. lower (snd cs)) ` set cache_schemas)
                  (remdups (map fst cache_schemas))")
  case (Pair events outcome)
  with assms have "outcome = Inl e" by simp
  with Pair show ?thesis by (simp add: set_relations_cache_eq)
qed

lemma distinct_prefix_map:
  assumes "prefix xs (map objects_query dbs)" and "distinct dbs"
  shows "distinct xs" and "set xs \<subseteq> objects_query ` set dbs"
proof -
  from assms(1) obtain zs where zs: "map objects_query dbs = xs @ zs"
    by (auto simp: prefix_def)
  have "distinct (map objects_query dbs)"
    using assms(2) by (simp add: distinct_map inj_on_def objects_query_inj)
  with zs show "distinct xs" by simp
  from zs have "set xs \<subseteq> set (map objects_query dbs)"
    by (metis set_append Un_upper1)
  then show "set xs \<subseteq> objects_query ` set dbs" by simp
qed

lemma set_concat_objects:
  "set (concat (map (\<lambda>d. case objects_of self d of
                               Inr rows \<Rightarrow> map f (filter P rows)
                             | Inl _ \<Rightarrow> []) dbs)) =
     {f obj | d rows obj. d \<in> set dbs \<and> objects_of self d = Inr rows \<and>
                          obj \<in> set rows \<and> P obj}"
proof (induction dbs)
  case Nil
  show ?case by simp
next
  case (Cons a dbs)
  show ?case
  proof (cases "objects_of self a")
    case (Inl x)
    with Cons show ?thesis by auto
  next
    case (Inr rows)
    with Cons show ?thesis by auto
  qed
qed

lemma bulk_population_lemma:
  assumes ok: "snd (set_relations_cache self cache_schemas clear) = Inr ()"
  shows "Cache_Add r \<in> set (fst (set_relations_cache self cache_schemas clear)) \<longleftrightarrow>
           (\<exists>d rows obj. d \<in> fst ` set cache_schemas \<and> objects_of self d = Inr rows \<and>
              obj \<in> set rows \<and>
              lower (col_schema_name obj) \<in> (\<lambda>cs. lower (snd cs)) ` set cache_schemas \<and>
              r = database_object_to_relation self obj)"
proof -
  let ?names = "(\<lambda>cs. lower (snd cs)) ` set cache_schemas"
  let ?dbs = "remdups (map fst cache_schemas)"
  let ?inner = "list_database_objects self ?names ?dbs"
  let ?events = "fst (set_relations_cache self cache_schemas clear)"
  have dbs: "set ?dbs = fst ` set cache_schemas" by simp
  from ok have "?inner = (fst ?inner, Inr ())"
    by (simp add: set_relations_cache_outcome prod_eq_iff)
  note ret = list_database_objects_returns [OF this]
  have "set (cache_adds ?events) =
          {database_object_to_relation self obj | d rows obj.
             d \<in> fst ` set cache_schemas \<and> objects_of self d = Inr rows \<and>
             obj \<in> set rows \<and> lower (col_schema_name obj) \<in> ?names}"
    unfolding set_relations_cache_adds ret(3) set_concat_objects dbs ..
  then show ?thesis
    unfolding set_cache_adds [symmetric] by blast
qed


text \<open>
  Claim C1, as the code has it. In every call of \<open>set_relations_cache\<close> no database is
  listed twice and only databases of the requested pairs are listed. When the call
  returns, the listed databases are exactly the distinct databases of the requested pairs
  (one listing for each, however many schemas it has), and \<^verbatim>\<open>cache.add\<close> is called with
  exactly the relations of those returned objects whose lower-cased schema name is the
  lower-cased schema of some requested pair, of whichever database: for a returned object,
  it is inserted iff its lower-cased schema name is among the lower-cased requested schema
  names.
\<close>

theorem bulk_population_queries_and_filter:
  "distinct (macro_calls (fst (set_relations_cache self cache_schemas clear)))
   \<and> set (macro_calls (fst (set_relations_cache self cache_schemas clear)))
       \<subseteq> objects_query ` fst ` set cache_schemas
   \<and> (snd (set_relations_cache self cache_schemas clear) = Inr () \<longrightarrow>
        set (macro_calls (fst (set_relations_cache self cache_schemas clear)))
          = objects_query ` fst ` set cache_schemas
        \<and> (\<forall>r. Cache_Add r \<in> set (fst (set_relations_cache self cache_schemas clear)) \<longleftrightarrow>
                (\<exists>d rows obj. d \<in> fst ` set cache_schemas \<and> objects_of self d = Inr rows \<and>
                   obj \<in> set rows \<and>
                   lower (col_schema_name obj) \<in> (\<lambda>cs. lower (snd cs)) ` set cache_schemas \<and>
                   r = database_object_to_relation self obj))
        \<and> (\<forall>d rows obj. d \<in> fst ` set cache_schemas \<and> objects_of self d = Inr rows \<and>
                obj \<in> set rows \<longrightarrow>
                (Cache_Add (database_object_to_relation self obj)
                   \<in> set (fst (set_relations_cache self cache_schemas clear)) \<longleftrightarrow>
                 lower (col_schema_name obj) \<in> (\<lambda>cs. lower (snd cs)) ` set cache_schemas)))"
proof -
  let ?names = "(\<lambda>cs. lower (snd cs)) ` set cache_schemas"
  let ?dbs = "remdups (map fst cache_schemas)"
  let ?inner = "list_database_objects self ?names ?dbs"
  let ?events = "fst (set_relations_cache self cache_schemas clear)"
  have pre: "prefix (macro_calls ?events) (map objects_query ?dbs)"
    unfolding set_relations_cache_calls by (rule list_database_objects_calls_prefix)
  have a: "distinct (macro_calls ?events)"
    by (rule distinct_prefix_map(1) [OF pre]) simp
  have b: "set (macro_calls ?events) \<subseteq> objects_query ` fst ` set cache_schemas"
    using distinct_prefix_map(2) [OF pre] by simp
  have c: "set (macro_calls ?events) = objects_query ` fst ` set cache_schemas"
    if ok: "snd (set_relations_cache self cache_schemas clear) = Inr ()"
  proof -
    from ok have "?inner = (fst ?inner, Inr ())"
      by (simp add: set_relations_cache_outcome prod_eq_iff)
    from list_database_objects_returns(1) [OF this] show ?thesis
      by (simp add: set_relations_cache_calls)
  qed
  have d: "\<forall>r. Cache_Add r \<in> set ?events \<longleftrightarrow>
                (\<exists>d rows obj. d \<in> fst ` set cache_schemas \<and> objects_of self d = Inr rows \<and>
                   obj \<in> set rows \<and> lower (col_schema_name obj) \<in> ?names \<and>
                   r = database_object_to_relation self obj)"
    if ok: "snd (set_relations_cache self cache_schemas clear) = Inr ()"
  proof
    fix r
    show "Cache_Add r \<in> set ?events \<longleftrightarrow>
                (\<exists>d rows obj. d \<in> fst ` set cache_schemas \<and> objects_of self d = Inr rows \<and>
                   obj \<in> set rows \<and> lower (col_schema_name obj) \<in> ?names \<and>
                   r = database_object_to_relation self obj)"
      by (rule bulk_population_lemma [OF ok])
  qed
  have e: "Cache_Add (database_object_to_relation self obj) \<in> set ?events \<longleftrightarrow>
             lower (col_schema_name obj) \<in> ?names"
    if ok: "snd (set_relations_cache self cache_schemas clear) = Inr ()"
      and obj: "d \<in> fst ` set cache_schemas \<and> objects_of self d = Inr rows \<and> obj \<in> set rows"
    for d rows obj
  proof
    assume "Cache_Add (database_object_to_relation self obj) \<in> set ?events"
    with d [OF ok] obtain obj' where "lower (col_schema_name obj') \<in> ?names"
      and "database_object_to_relation self obj = database_object_to_relation self obj'"
      by blast
    then show "lower (col_schema_name obj) \<in> ?names"
      by (simp add: database_object_to_relation_def Relation_create_def Let_def)
  next
    assume "lower (col_schema_name obj) \<in> ?names"
    with d [OF ok] obj show "Cache_Add (database_object_to_relation self obj) \<in> set ?events"
      by blast
  qed
  show ?thesis
  proof (intro conjI impI allI)
    show "distinct (macro_calls ?events)" by (rule a)
    show "set (macro_calls ?events) \<subseteq> objects_query ` fst ` set cache_schemas" by (rule b)
  next
    assume ok: "snd (set_relations_cache self cache_schemas clear) = Inr ()"
    show "set (macro_calls ?events) = objects_query ` fst ` set cache_schemas"
      by (rule c [OF ok])
    fix r
    from d [OF ok] show "Cache_Add r \<in> set ?events \<longleftrightarrow>
                (\<exists>d rows obj. d \<in> fst ` set cache_schemas \<and> objects_of self d = Inr rows \<and>
                   obj \<in> set rows \<and> lower (col_schema_name obj) \<in> ?names \<and>
                   r = database_object_to_relation self obj)" ..
  next
    fix d rows obj
    assume "snd (set_relations_cache self cache_schemas clear) = Inr ()"
      and "d \<in> fst ` set cache_schemas \<and> objects_of self d = Inr rows \<and> obj \<in> set rows"
    then show "Cache_Add (database_object_to_relation self obj) \<in> set ?events \<longleftrightarrow>
             lower (col_schema_name obj) \<in> ?names"
      by (rule e)
  qed
qed

lemma demo_objects_of:
  "objects_of demo_adapter d = demo_objects d"
  by (simp add: demo_adapter_def LIST_SCHEMAS_MACRO_NAME_def LIST_DATABASE_OBJECTS_MACRO_NAME_def)

text \<open>
  Claim C1 as stated fails on the demo warehouse. With \<^verbatim>\<open>(DB1, a)\<close> and \<^verbatim>\<open>(DB2, b)\<close>
  requested, the table \<^verbatim>\<open>T\<close> of schema \<^verbatim>\<open>b\<close> in \<^verbatim>\<open>DB1\<close> is inserted, though the pair
  \<^verbatim>\<open>(DB1, b)\<close> is not requested, as it is, lower-cased or upper-cased. With two databases
  requested that both do not exist, the first listing raises and the other database is
  not listed at all.
\<close>

theorem insertion_ignores_the_database:
  "objects_of demo_adapter ''DB1'' = Inr [object_row ''DB1'' ''b'' ''T'' ''TABLE'']
   \<and> Cache_Add (database_object_to_relation demo_adapter (object_row ''DB1'' ''b'' ''T'' ''TABLE''))
       \<in> set (fst (set_relations_cache demo_adapter [(''DB1'', ''a''), (''DB2'', ''b'')] True))
   \<and> snd (set_relations_cache demo_adapter [(''DB1'', ''a''), (''DB2'', ''b'')] True) = Inr ()
   \<and> (''DB1'', ''b'') \<notin> {(''DB1'', ''a''), (''DB2'', ''b'')}
   \<and> (lower ''DB1'', lower ''b'') \<notin> {(lower ''DB1'', lower ''a''), (lower ''DB2'', lower ''b'')}
   \<and> (upper ''DB1'', upper ''b'') \<notin> {(upper ''DB1'', upper ''a''), (upper ''DB2'', upper ''b'')}
   \<and> macro_calls (fst (set_relations_cache demo_adapter [(''GONE'', ''a''), (''GONE2'', ''b'')] True))
       = [objects_query ''GONE'']
   \<and> objects_query ''GONE2''
       \<notin> set (macro_calls
                (fst (set_relations_cache demo_adapter [(''GONE'', ''a''), (''GONE2'', ''b'')] True)))"
proof -
  have l: "lower ''a'' = ''a''" "lower ''b'' = ''b''" "lower ''DB1'' = ''db1''"
    "lower ''DB2'' = ''db2''" "upper ''a'' = ''A''" "upper ''b'' = ''B''"
    "upper ''DB1'' = ''DB1''" "upper ''DB2'' = ''DB2''"
    by code_simp+
  have run1: "set_relations_cache demo_adapter [(''DB1'', ''a''), (''DB2'', ''b'')] True =
     ([Lock_Acquire, Cache_Clear, Execute_Macro LIST_DATABASE_OBJECTS_MACRO_NAME (Kw_database ''DB1''),
       Cache_Add (database_object_to_relation demo_adapter (object_row ''DB1'' ''b'' ''T'' ''TABLE'')),
       Execute_Macro LIST_DATABASE_OBJECTS_MACRO_NAME (Kw_database ''DB2''),
       Cache_Update_Schemas {(''DB1'', ''a''), (''DB2'', ''b'')}, Lock_Release], Inr ())"
    by (simp add: set_relations_cache_eq demo_objects_of demo_objects_def object_row_def l)
  have run2: "set_relations_cache demo_adapter [(''GONE'', ''a''), (''GONE2'', ''b'')] True =
     ([Lock_Acquire, Cache_Clear,
       Execute_Macro LIST_DATABASE_OBJECTS_MACRO_NAME (Kw_database ''GONE''), Lock_Release],
      Inl (objects_error ''GONE'' ''Database does not exist''))"
    by (simp add: set_relations_cache_eq demo_objects_of demo_objects_def)
  show ?thesis
    unfolding run1 run2
    by (simp add: demo_objects_of demo_objects_def l objects_query_def)
qed

lemma lower_names:
  "lower ''PUBLIC'' = ''public''" "lower ''public'' = ''public''" "lower ''b'' = ''b''"
  "lower ''a'' = ''a''" "lower ''ANALYTICS'' = ''analytics''" "lower ''DB2'' = ''db2''"
  by code_simp+

lemma demo_run_analytics:
  "set_relations_cache demo_adapter [(''ANALYTICS'', ''public''), (''DB2'', ''b'')] True =
     ([Lock_Acquire, Cache_Clear,
       Execute_Macro LIST_DATABASE_OBJECTS_MACRO_NAME (Kw_database ''ANALYTICS''),
       Cache_Add (database_object_to_relation demo_adapter
                    (object_row ''ANALYTICS'' ''PUBLIC'' ''ORDERS'' ''TABLE'')),
       Cache_Add (database_object_to_relation demo_adapter
                    (object_row ''ANALYTICS'' ''PUBLIC'' ''V1'' ''VIEW'')),
       Cache_Add (database_object_to_relation demo_adapter
                    (object_row ''ANALYTICS'' ''PUBLIC'' ''S1'' ''STAGE'')),
       Execute_Macro LIST_DATABASE_OBJECTS_MACRO_NAME (Kw_database ''DB2''),
       Cache_Update_Schemas {(''ANALYTICS'', ''public''), (''DB2'', ''b'')}, Lock_Release],
      Inr ())"
  by (simp add: set_relations_cache_eq demo_objects_of demo_objects_def object_row_def
        lower_names)

lemma demo_run_gone:
  "set_relations_cache demo_adapter [(''DB2'', ''b''), (''GONE'', ''a'')] False =
     ([Lock_Acquire,
       Execute_Macro LIST_DATABASE_OBJECTS_MACRO_NAME (Kw_database ''DB2''),
       Execute_Macro LIST_DATABASE_OBJECTS_MACRO_NAME (Kw_database ''GONE''), Lock_Release],
      Inl (objects_error ''GONE'' ''Database does not exist''))"
  by (simp add: set_relations_cache_eq demo_objects_of demo_objects_def)

text \<open>
  On the demo warehouse, with \<^verbatim>\<open>(ANALYTICS, public)\<close> and \<^verbatim>\<open>(DB2, b)\<close> requested, the
  call returns, each of the two databases is listed once, and the table \<^verbatim>\<open>ORDERS\<close> of
  schema \<^verbatim>\<open>PUBLIC\<close> is inserted.
\<close>

theorem bulk_population_queries_and_filter_witness:
  "snd (set_relations_cache demo_adapter [(''ANALYTICS'', ''public''), (''DB2'', ''b'')] True)
     = Inr ()
   \<and> distinct (macro_calls
        (fst (set_relations_cache demo_adapter [(''ANALYTICS'', ''public''), (''DB2'', ''b'')] True)))
   \<and> set (macro_calls
        (fst (set_relations_cache demo_adapter [(''ANALYTICS'', ''public''), (''DB2'', ''b'')] True)))
     = {objects_query ''ANALYTICS'', objects_query ''DB2''}
   \<and> Cache_Add (database_object_to_relation demo_adapter
                  (object_row ''ANALYTICS'' ''PUBLIC'' ''ORDERS'' ''TABLE''))
     \<in> set (fst (set_relations_cache demo_adapter
                    [(''ANALYTICS'', ''public''), (''DB2'', ''b'')] True))"
proof -
  let ?cs = "[(''ANALYTICS'', ''public''), (''DB2'', ''b'')]"
  have ok: "snd (set_relations_cache demo_adapter ?cs True) = Inr ()"
    by (simp add: demo_run_analytics)
  note t = bulk_population_queries_and_filter [of demo_adapter ?cs True]
  from t have a: "distinct (macro_calls (fst (set_relations_cache demo_adapter ?cs True)))"
    by (rule conjunct1)
  note rest = t [THEN conjunct2, THEN conjunct2, THEN mp, OF ok]
  from rest [THEN conjunct1]
  have b: "set (macro_calls (fst (set_relations_cache demo_adapter ?cs True)))
             = {objects_query ''ANALYTICS'', objects_query ''DB2''}"
    by simp
  have rows: "''ANALYTICS'' \<in> fst ` set ?cs \<and>
      objects_of demo_adapter ''ANALYTICS'' =
        Inr [object_row ''ANALYTICS'' ''PUBLIC'' ''ORDERS'' ''TABLE'',
             object_row ''ANALYTICS'' ''PUBLIC'' ''V1'' ''VIEW'',
             object_row ''ANALYTICS'' ''PUBLIC'' ''S1'' ''STAGE''] \<and>
      object_row ''ANALYTICS'' ''PUBLIC'' ''ORDERS'' ''TABLE''
        \<in> set [object_row ''ANALYTICS'' ''PUBLIC'' ''ORDERS'' ''TABLE'',
                object_row ''ANALYTICS'' ''PUBLIC'' ''V1'' ''VIEW'',
                object_row ''ANALYTICS'' ''PUBLIC'' ''S1'' ''STAGE'']"
    by (simp add: demo_objects_of demo_objects_def)
  have name: "lower (col_schema_name (object_row ''ANALYTICS'' ''PUBLIC'' ''ORDERS'' ''TABLE''))
                \<in> (\<lambda>cs. lower (snd cs)) ` set ?cs"
    by (simp add: object_row_def lower_names)
  from rest [THEN conjunct2, THEN conjunct2, rule_format, OF rows] name
  have c: "Cache_Add (database_object_to_relation demo_adapter
                  (object_row ''ANALYTICS'' ''PUBLIC'' ''ORDERS'' ''TABLE''))
     \<in> set (fst (set_relations_cache demo_adapter ?cs True))"
    by (rule iffD2)
  from ok a b c show ?thesis by (intro conjI)
qed

subsection \<open>Failed listings\<close>

lemma first_failure_reached:
  assumes req: "d \<in> fst ` set cache_schemas"
      and fail: "objects_of self d = Inl e"
      and others: "\<forall>d' \<in> fst ` set cache_schemas. d' \<noteq> d \<longrightarrow> (\<exists>rows. objects_of self d' = Inr rows)"
  shows "snd (set_relations_cache self cache_schemas clear) =
           Inl (case e of DatabaseException exc \<Rightarrow> objects_error d exc | _ \<Rightarrow> e)"
proof -
  let ?names = "(\<lambda>cs. lower (snd cs)) ` set cache_schemas"
  let ?dbs = "remdups (map fst cache_schemas)"
  have dbs: "set ?dbs = fst ` set cache_schemas" by simp
  from req have "d \<in> set ?dbs" by (simp only: dbs)
  from split_list_first [OF this]
  obtain pre post where split: "?dbs = pre @ d # post" and fresh: "d \<notin> set pre"
    by blast
  have pre: "\<forall>d' \<in> set pre. \<exists>rows. objects_of self d' = Inr rows"
  proof
    fix d' assume m: "d' \<in> set pre"
    then have "d' \<in> set (pre @ d # post)" by simp
    then have "d' \<in> set ?dbs" by (simp only: split)
    then have r: "d' \<in> fst ` set cache_schemas" by (simp only: dbs)
    from m fresh have "d' \<noteq> d" by blast
    with others r show "\<exists>rows. objects_of self d' = Inr rows" by blast
  qed
  show ?thesis
    unfolding set_relations_cache_outcome split
    by (rule list_database_objects_first_failure(1) [OF pre fail])
qed

lemma count_list_map_snoc:
  assumes "d \<notin> set pre"
  shows "count_list (map objects_query (pre @ [d])) (objects_query d) = 1"
proof -
  from assms have "objects_query d \<notin> set (map objects_query pre)"
    by (auto simp: objects_query_inj)
  then have "count_list (map objects_query pre) (objects_query d) = 0"
    by (simp only: count_list_0_iff not_False_eq_True)
  then show ?thesis by simp
qed

text \<open>
  Claim C8. \<open>list_schemas\<close> sends one macro call; a database error of that call is
  raised as a runtime error whose text names the database and ends with the text of the
  database error, and a result is returned as its \<^verbatim>\<open>name\<close> column. In
  \<open>set_relations_cache\<close>, when a listing that was sent fails with a database error, the
  call raises the runtime error that names that database and carries that text, the
  failed listing is the last one sent and was sent once, and no schemas are marked; and
  the listing of a requested database is reached, and its database error raised so,
  whenever the listings of the other requested databases succeed.
\<close>

theorem listing_failures_are_wrapped:
  "(execute_macro self LIST_SCHEMAS_MACRO_NAME (Kw_database database) =
      Inl (DatabaseException exc) \<longrightarrow>
    list_schemas self database =
      ([Execute_Macro LIST_SCHEMAS_MACRO_NAME (Kw_database database)],
       Inl (RuntimeException
             (''Database error while listing schemas in database '' @
              [CHR 0x22] @ database @ [CHR 0x22, CHR 0x0A] @ exc))))
   \<and> (execute_macro self LIST_SCHEMAS_MACRO_NAME (Kw_database database) = Inr results \<longrightarrow>
      list_schemas self database =
        ([Execute_Macro LIST_SCHEMAS_MACRO_NAME (Kw_database database)],
         Inr (map col_name results)))
   \<and> (objects_query d \<in> set (macro_calls (fst (set_relations_cache self cache_schemas clear))) \<and>
      objects_of self d = Inl (DatabaseException exc') \<longrightarrow>
      snd (set_relations_cache self cache_schemas clear) = Inl (objects_error d exc') \<and>
      last (macro_calls (fst (set_relations_cache self cache_schemas clear))) = objects_query d \<and>
      count_list (macro_calls (fst (set_relations_cache self cache_schemas clear)))
        (objects_query d) = 1 \<and>
      (\<forall>pairs. Cache_Update_Schemas pairs
                 \<notin> set (fst (set_relations_cache self cache_schemas clear))))
   \<and> (d \<in> fst ` set cache_schemas \<and> objects_of self d = Inl (DatabaseException exc') \<and>
      (\<forall>d' \<in> fst ` set cache_schemas. d' \<noteq> d \<longrightarrow> (\<exists>rows. objects_of self d' = Inr rows)) \<longrightarrow>
      snd (set_relations_cache self cache_schemas clear) = Inl (objects_error d exc'))"
proof (intro conjI impI)
  assume "execute_macro self LIST_SCHEMAS_MACRO_NAME (Kw_database database) =
      Inl (DatabaseException exc)"
  then show "list_schemas self database =
      ([Execute_Macro LIST_SCHEMAS_MACRO_NAME (Kw_database database)],
       Inl (RuntimeException
             (''Database error while listing schemas in database '' @
              [CHR 0x22] @ database @ [CHR 0x22, CHR 0x0A] @ exc)))"
    by (simp add: list_schemas_def)
next
  assume "execute_macro self LIST_SCHEMAS_MACRO_NAME (Kw_database database) = Inr results"
  then show "list_schemas self database =
        ([Execute_Macro LIST_SCHEMAS_MACRO_NAME (Kw_database database)],
         Inr (map col_name results))"
    by (simp add: list_schemas_def)
next
  let ?names = "(\<lambda>cs. lower (snd cs)) ` set cache_schemas"
  let ?dbs = "remdups (map fst cache_schemas)"
  assume a: "objects_query d \<in> set (macro_calls (fst (set_relations_cache self cache_schemas clear))) \<and>
      objects_of self d = Inl (DatabaseException exc')"
  then have q: "objects_query d \<in> set (macro_calls (fst (list_database_objects self ?names ?dbs)))"
    and f: "objects_of self d = Inl (DatabaseException exc')"
    by (simp_all add: set_relations_cache_calls)
  have dist: "distinct ?dbs" by simp
  note qf = list_database_objects_queried_failure [OF dist q f]
  from qf(1) show out: "snd (set_relations_cache self cache_schemas clear) = Inl (objects_error d exc')"
    by (simp add: set_relations_cache_outcome)
  from qf(2) obtain pre where calls:
    "macro_calls (fst (list_database_objects self ?names ?dbs)) = map objects_query (pre @ [d])"
    and fresh: "d \<notin> set pre" by blast
  from calls show "last (macro_calls (fst (set_relations_cache self cache_schemas clear))) =
      objects_query d"
    by (simp add: set_relations_cache_calls)
  from calls count_list_map_snoc [OF fresh]
  show "count_list (macro_calls (fst (set_relations_cache self cache_schemas clear)))
        (objects_query d) = 1"
    by (simp only: set_relations_cache_calls)
  from qf(3)
  show "\<forall>pairs. Cache_Update_Schemas pairs
                 \<notin> set (fst (set_relations_cache self cache_schemas clear))"
    unfolding set_relations_cache_raises [OF qf(1)] by simp
next
  assume "d \<in> fst ` set cache_schemas \<and> objects_of self d = Inl (DatabaseException exc') \<and>
      (\<forall>d' \<in> fst ` set cache_schemas. d' \<noteq> d \<longrightarrow> (\<exists>rows. objects_of self d' = Inr rows))"
  then have req: "d \<in> fst ` set cache_schemas"
    and fail: "objects_of self d = Inl (DatabaseException exc')"
    and others: "\<forall>d' \<in> fst ` set cache_schemas. d' \<noteq> d \<longrightarrow>
                   (\<exists>rows. objects_of self d' = Inr rows)"
    by simp_all
  from first_failure_reached [OF req fail others, of clear]
  show "snd (set_relations_cache self cache_schemas clear) = Inl (objects_error d exc')"
    by simp
qed

text \<open>
  On the demo warehouse: the schemas of a database that does not exist and of
  \<^verbatim>\<open>ANALYTICS\<close>, and a cache load that asks for \<^verbatim>\<open>DB2\<close> and then for a database that
  does not exist.
\<close>

theorem listing_failures_are_wrapped_witness:
  "list_schemas demo_adapter ''GONE'' =
     ([Execute_Macro LIST_SCHEMAS_MACRO_NAME (Kw_database ''GONE'')],
      Inl (RuntimeException
            (''Database error while listing schemas in database '' @
             [CHR 0x22] @ ''GONE'' @ [CHR 0x22, CHR 0x0A] @ ''Database does not exist'')))
   \<and> list_schemas demo_adapter ''ANALYTICS'' =
       ([Execute_Macro LIST_SCHEMAS_MACRO_NAME (Kw_database ''ANALYTICS'')],
        Inr [''INFORMATION_SCHEMA'', ''PUBLIC''])
   \<and> snd (set_relations_cache demo_adapter [(''DB2'', ''b''), (''GONE'', ''a'')] False) =
       Inl (objects_error ''GONE'' ''Database does not exist'')
   \<and> macro_calls (fst (set_relations_cache demo_adapter [(''DB2'', ''b''), (''GONE'', ''a'')] False))
       = [objects_query ''DB2'', objects_query ''GONE'']
   \<and> count_list
        (macro_calls (fst (set_relations_cache demo_adapter [(''DB2'', ''b''), (''GONE'', ''a'')] False)))
        (objects_query ''GONE'') = 1"
proof -
  let ?cs = "[(''DB2'', ''b''), (''GONE'', ''a'')]"
  have s1: "execute_macro demo_adapter LIST_SCHEMAS_MACRO_NAME (Kw_database ''GONE'') =
              Inl (DatabaseException ''Database does not exist'')"
    by (simp add: demo_adapter_def demo_schemas_def)
  have s2: "execute_macro demo_adapter LIST_SCHEMAS_MACRO_NAME (Kw_database ''ANALYTICS'') =
              Inr [object_row ''ANALYTICS'' [] ''INFORMATION_SCHEMA'' [],
                   object_row ''ANALYTICS'' [] ''PUBLIC'' []]"
    by (simp add: demo_adapter_def demo_schemas_def)
  have calls: "macro_calls (fst (set_relations_cache demo_adapter ?cs False)) =
                 [objects_query ''DB2'', objects_query ''GONE'']"
    by (simp add: demo_run_gone objects_query_def)
  have sent: "objects_query ''GONE'' \<in> set (macro_calls (fst (set_relations_cache demo_adapter ?cs False))) \<and>
      objects_of demo_adapter ''GONE'' = Inl (DatabaseException ''Database does not exist'')"
    by (simp add: calls demo_objects_of demo_objects_def)
  note t = listing_failures_are_wrapped
             [where self = demo_adapter and database = "''GONE''"
                and exc = "''Database does not exist''" and d = "''GONE''"
                and cache_schemas = ?cs and clear = False
                and exc' = "''Database does not exist''"]
  from t [THEN conjunct1, THEN mp, OF s1]
  have a: "list_schemas demo_adapter ''GONE'' =
     ([Execute_Macro LIST_SCHEMAS_MACRO_NAME (Kw_database ''GONE'')],
      Inl (RuntimeException
            (''Database error while listing schemas in database '' @
             [CHR 0x22] @ ''GONE'' @ [CHR 0x22, CHR 0x0A] @ ''Database does not exist'')))" .
  from listing_failures_are_wrapped
         [where self = demo_adapter and database = "''ANALYTICS''",
          THEN conjunct2, THEN conjunct1, THEN mp, OF s2]
  have b: "list_schemas demo_adapter ''ANALYTICS'' =
       ([Execute_Macro LIST_SCHEMAS_MACRO_NAME (Kw_database ''ANALYTICS'')],
        Inr [''INFORMATION_SCHEMA'', ''PUBLIC''])"
    by (simp add: object_row_def)
  note third = t [THEN conjunct2, THEN conjunct2, THEN conjunct1, THEN mp, OF sent]
  from third have c: "snd (set_relations_cache demo_adapter ?cs False) =
       Inl (objects_error ''GONE'' ''Database does not exist'')"
    by (rule conjunct1)
  note e = third [THEN conjunct2, THEN conjunct2, THEN conjunct1]
  from a b c calls e show ?thesis by (intro conjI)
qed

subsection \<open>Known schemas\<close>

lemma cache_after_append:
  "cache_after nrm (xs @ ys) c = cache_after nrm ys (cache_after nrm xs c)"
  by (simp add: cache_after_def)

lemma cache_after_Cons:
  "cache_after nrm (e # es) c = cache_after nrm es (cache_event nrm c e)"
  by (simp add: cache_after_def)

lemma cache_after_Nil: "cache_after nrm [] c = c"
  by (simp add: cache_after_def)

lemma getRelationsInSchema_event:
  "getRelationsInSchema nrm (cache_event nrm c e) d s \<subseteq>
     getRelationsInSchema nrm c d s \<union>
     {r. e = Cache_Add r \<and>
         (map_option nrm (rel_database r), map_option nrm (rel_schema r)) = schema_key nrm d s}"
  by (cases e)
     (auto simp: getRelationsInSchema_def cache_clear_def cache_add_def
        cache_update_schemas_def cache_key_def)

lemma getRelationsInSchema_after:
  "getRelationsInSchema nrm (cache_after nrm events c) d s \<subseteq>
     getRelationsInSchema nrm c d s \<union>
     {r \<in> set (cache_adds events).
        (map_option nrm (rel_database r), map_option nrm (rel_schema r)) = schema_key nrm d s}"
proof (induction events arbitrary: c)
  case Nil
  show ?case by (simp add: cache_after_Nil)
next
  case (Cons e events)
  have "getRelationsInSchema nrm (cache_after nrm (e # events) c) d s \<subseteq>
          getRelationsInSchema nrm (cache_event nrm c e) d s \<union>
          {r \<in> set (cache_adds events).
             (map_option nrm (rel_database r), map_option nrm (rel_schema r)) =
               schema_key nrm d s}"
    unfolding cache_after_Cons by (rule Cons.IH)
  also have "\<dots> \<subseteq> getRelationsInSchema nrm c d s \<union>
     {r \<in> set (cache_adds (e # events)).
        (map_option nrm (rel_database r), map_option nrm (rel_schema r)) = schema_key nrm d s}"
    using getRelationsInSchema_event [of nrm c e d s]
    by (cases e) auto
  finally show ?case .
qed

lemma isSchemaKnown_update:
  "(d, s) \<in> pairs \<Longrightarrow> isSchemaKnown nrm (cache_update_schemas nrm pairs c) d s"
  by (force simp: isSchemaKnown_def cache_update_schemas_def)

lemma getRelationsInSchema_update:
  "getRelationsInSchema nrm (cache_update_schemas nrm pairs c) d s =
     getRelationsInSchema nrm c d s"
  by (simp add: getRelationsInSchema_def cache_update_schemas_def)

lemma set_relations_cache_marks:
  assumes "snd (set_relations_cache self cache_schemas clear) = Inr ()"
  shows "Cache_Update_Schemas (set cache_schemas)
           \<in> set (fst (set_relations_cache self cache_schemas clear))"
proof (cases "list_database_objects self ((\<lambda>cs. lower (snd cs)) ` set cache_schemas)
                  (remdups (map fst cache_schemas))")
  case (Pair events outcome)
  with assms have "outcome = Inr ()"
    by (simp add: set_relations_cache_outcome)
  with Pair show ?thesis by (simp add: set_relations_cache_eq)
qed

lemma set_relations_cache_after:
  assumes "snd (set_relations_cache self cache_schemas clear) = Inr ()"
  shows "cache_after nrm (fst (set_relations_cache self cache_schemas clear)) c =
           cache_update_schemas nrm (set cache_schemas)
             (cache_after nrm
                (fst (list_database_objects self ((\<lambda>cs. lower (snd cs)) ` set cache_schemas)
                        (remdups (map fst cache_schemas))))
                (if clear then cache_clear c else c))"
  using assms
  by (simp add: set_relations_cache_eq cache_after_append cache_after_Cons cache_after_Nil
        split: prod.splits sum.splits)

text \<open>
  Claim C2, as the code has it. When \<open>set_relations_cache\<close> returns, it has called
  \<^verbatim>\<open>cache.update_schemas\<close> with the set of all requested pairs, and every requested pair
  is a known schema of the cache that its events leave, whatever the cache was before
  and whatever objects were listed. If moreover no listed object of a requested database has that pair as its
  normalized database and schema, and the cache was cleared or held nothing in that
  schema before, the relations of that schema are the empty set.
\<close>

theorem requested_schemas_become_known:
  "snd (set_relations_cache self cache_schemas clear) = Inr () \<and> (d, s) \<in> set cache_schemas \<longrightarrow>
     Cache_Update_Schemas (set cache_schemas)
       \<in> set (fst (set_relations_cache self cache_schemas clear))
     \<and> isSchemaKnown nrm
       (cache_after nrm (fst (set_relations_cache self cache_schemas clear)) c) d s
     \<and> ((clear \<or> getRelationsInSchema nrm c d s = {}) \<and>
        (\<forall>d' rows obj. d' \<in> fst ` set cache_schemas \<and> objects_of self d' = Inr rows \<and>
            obj \<in> set rows \<longrightarrow>
            schema_key nrm (col_database_name obj) (col_schema_name obj) \<noteq> schema_key nrm d s)
        \<longrightarrow> getRelationsInSchema nrm
              (cache_after nrm (fst (set_relations_cache self cache_schemas clear)) c) d s = {})"
proof (intro impI conjI)
  let ?names = "(\<lambda>cs. lower (snd cs)) ` set cache_schemas"
  let ?inner = "fst (list_database_objects self ?names (remdups (map fst cache_schemas)))"
  let ?start = "if clear then cache_clear c else c"
  assume a: "snd (set_relations_cache self cache_schemas clear) = Inr () \<and>
             (d, s) \<in> set cache_schemas"
  then have ok: "snd (set_relations_cache self cache_schemas clear) = Inr ()"
    and req: "(d, s) \<in> set cache_schemas" by simp_all
  note after = set_relations_cache_after [OF ok, of nrm c]
  from ok show "Cache_Update_Schemas (set cache_schemas)
       \<in> set (fst (set_relations_cache self cache_schemas clear))"
    by (simp add: set_relations_cache_marks)
  from req show "isSchemaKnown nrm
       (cache_after nrm (fst (set_relations_cache self cache_schemas clear)) c) d s"
    unfolding after by (rule isSchemaKnown_update)
  assume b: "(clear \<or> getRelationsInSchema nrm c d s = {}) \<and>
        (\<forall>d' rows obj. d' \<in> fst ` set cache_schemas \<and> objects_of self d' = Inr rows \<and>
            obj \<in> set rows \<longrightarrow>
            schema_key nrm (col_database_name obj) (col_schema_name obj) \<noteq> schema_key nrm d s)"
  have cleared: "getRelationsInSchema nrm (cache_clear c) d s = {}"
    by (simp add: getRelationsInSchema_def cache_clear_def)
  from b have "clear \<or> getRelationsInSchema nrm c d s = {}" by simp
  with cleared have start: "getRelationsInSchema nrm ?start d s = {}"
    by (cases clear) simp_all
  have none: "{r \<in> set (cache_adds ?inner).
        (map_option nrm (rel_database r), map_option nrm (rel_schema r)) = schema_key nrm d s}
      = {}"
  proof -
    have "False" if r: "r \<in> set (cache_adds ?inner)"
      and k: "(map_option nrm (rel_database r), map_option nrm (rel_schema r)) =
                schema_key nrm d s" for r
    proof -
      from r have "Cache_Add r \<in> set (fst (set_relations_cache self cache_schemas clear))"
        by (simp add: set_cache_adds [symmetric] set_relations_cache_adds)
      with bulk_population_lemma [OF ok]
      obtain d' rows obj where "d' \<in> fst ` set cache_schemas" "objects_of self d' = Inr rows"
        "obj \<in> set rows" "r = database_object_to_relation self obj"
        by blast
      with b k show False
        by (auto simp: schema_key_def database_object_to_relation_def Relation_create_def Let_def)
    qed
    then show ?thesis by blast
  qed
  from getRelationsInSchema_after [of nrm ?inner ?start d s] start none
  have "getRelationsInSchema nrm (cache_after nrm ?inner ?start) d s = {}"
    by simp
  then show "getRelationsInSchema nrm
              (cache_after nrm (fst (set_relations_cache self cache_schemas clear)) c) d s = {}"
    unfolding after getRelationsInSchema_update .
qed

text \<open>
  On the demo warehouse, from a cache that still holds a relation of \<^verbatim>\<open>DB2.b\<close>: after a
  cleared load of \<^verbatim>\<open>(ANALYTICS, public)\<close> and \<^verbatim>\<open>(DB2, b)\<close> the empty schema
  \<^verbatim>\<open>DB2.b\<close> is known and has no relations.
\<close>

theorem requested_schemas_become_known_witness:
  "isSchemaKnown lower
     (cache_after lower
        (fst (set_relations_cache demo_adapter [(''ANALYTICS'', ''public''), (''DB2'', ''b'')] True))
        \<lparr>relationsByKey =
           [((Some ''db2'', Some ''b'', Some ''old''), relation_of ''DB2'' ''b'' ''OLD'')],
         knownSchemas = {(Some ''db2'', Some ''b'')}\<rparr>)
     ''DB2'' ''b''
   \<and> getRelationsInSchema lower
     (cache_after lower
        (fst (set_relations_cache demo_adapter [(''ANALYTICS'', ''public''), (''DB2'', ''b'')] True))
        \<lparr>relationsByKey =
           [((Some ''db2'', Some ''b'', Some ''old''), relation_of ''DB2'' ''b'' ''OLD'')],
         knownSchemas = {(Some ''db2'', Some ''b'')}\<rparr>)
     ''DB2'' ''b'' = {}"
proof -
  let ?cs = "[(''ANALYTICS'', ''public''), (''DB2'', ''b'')]"
  have ok: "snd (set_relations_cache demo_adapter ?cs True) = Inr () \<and>
            (''DB2'', ''b'') \<in> set ?cs"
    by (simp add: demo_run_analytics)
  have empty: "\<forall>d' rows obj. d' \<in> fst ` set ?cs \<and> objects_of demo_adapter d' = Inr rows \<and>
            obj \<in> set rows \<longrightarrow>
            schema_key lower (col_database_name obj) (col_schema_name obj) \<noteq>
              schema_key lower ''DB2'' ''b''"
  proof (intro allI impI)
    fix d' rows obj
    assume h: "d' \<in> fst ` set ?cs \<and> objects_of demo_adapter d' = Inr rows \<and> obj \<in> set rows"
    then have "d' = ''ANALYTICS'' \<or> d' = ''DB2''" by simp
    then show "schema_key lower (col_database_name obj) (col_schema_name obj) \<noteq>
              schema_key lower ''DB2'' ''b''"
    proof
      assume "d' = ''ANALYTICS''"
      with h have "col_database_name obj = ''ANALYTICS''"
        by (auto simp: demo_objects_of demo_objects_def object_row_def)
      then show ?thesis by (simp add: schema_key_def lower_names)
    next
      assume "d' = ''DB2''"
      with h have False by (auto simp: demo_objects_of demo_objects_def)
      then show ?thesis ..
    qed
  qed
  note t = requested_schemas_become_known
             [where self = demo_adapter and cache_schemas = ?cs and clear = True
                and d = "''DB2''" and s = "''b''" and nrm = lower, THEN mp, OF ok]
  from t [THEN conjunct2, THEN conjunct2, THEN mp] empty
  have "getRelationsInSchema lower
     (cache_after lower (fst (set_relations_cache demo_adapter ?cs True))
        \<lparr>relationsByKey =
           [((Some ''db2'', Some ''b'', Some ''old''), relation_of ''DB2'' ''b'' ''OLD'')],
         knownSchemas = {(Some ''db2'', Some ''b'')}\<rparr>)
     ''DB2'' ''b'' = {}"
    by simp
  with t [THEN conjunct2, THEN conjunct1] show ?thesis by (intro conjI)
qed

lemma demo_run_uncleared:
  "set_relations_cache demo_adapter [(''DB2'', ''b'')] False =
     ([Lock_Acquire,
       Execute_Macro LIST_DATABASE_OBJECTS_MACRO_NAME (Kw_database ''DB2''),
       Cache_Update_Schemas {(''DB2'', ''b'')}, Lock_Release],
      Inr ())"
  by (simp add: set_relations_cache_eq demo_objects_of demo_objects_def)

text \<open>
  Claim C2 as stated fails where the cache is not cleared. On the demo warehouse, from a
  cache that still holds the relation \<^verbatim>\<open>OLD\<close> of \<^verbatim>\<open>DB2.b\<close>, the load of \<^verbatim>\<open>(DB2, b)\<close>
  with \<^verbatim>\<open>clear=False\<close> returns, the listing of \<^verbatim>\<open>DB2\<close> has no objects, the schema is
  known, and its relation set still holds \<^verbatim>\<open>OLD\<close>.
\<close>

theorem stale_relations_survive_an_uncleared_load:
  "snd (set_relations_cache demo_adapter [(''DB2'', ''b'')] False) = Inr ()
   \<and> objects_of demo_adapter ''DB2'' = Inr []
   \<and> isSchemaKnown lower
       (cache_after lower (fst (set_relations_cache demo_adapter [(''DB2'', ''b'')] False))
          \<lparr>relationsByKey =
             [((Some ''db2'', Some ''b'', Some ''old''), relation_of ''DB2'' ''b'' ''OLD'')],
           knownSchemas = {(Some ''db2'', Some ''b'')}\<rparr>)
       ''DB2'' ''b''
   \<and> getRelationsInSchema lower
       (cache_after lower (fst (set_relations_cache demo_adapter [(''DB2'', ''b'')] False))
          \<lparr>relationsByKey =
             [((Some ''db2'', Some ''b'', Some ''old''), relation_of ''DB2'' ''b'' ''OLD'')],
           knownSchemas = {(Some ''db2'', Some ''b'')}\<rparr>)
       ''DB2'' ''b''
     = {relation_of ''DB2'' ''b'' ''OLD''}
   \<and> {relation_of ''DB2'' ''b'' ''OLD''} \<noteq> {}"
  unfolding demo_run_uncleared
  by (simp add: demo_objects_of demo_objects_def cache_after_def cache_update_schemas_def
        isSchemaKnown_def getRelationsInSchema_def schema_key_def lower_names)

end
